theory Spec2Isabelle
  imports Main "HOL-Library.Sublist"
begin

section \<open>Regular expressions as the upgrade command uses them\<close>

text \<open>
  The upgrade command (\<^verbatim>\<open>src/cli/bin/quasar-upgrade\<close>) decides everything about versions
  with JavaScript regular expressions.  The fragment it uses is: the anchors \<^verbatim>\<open>^\<close> and
  \<^verbatim>\<open>$\<close> (no multiline flag), literal text, the class \<^verbatim>\<open>\d\<close> (ASCII digits: no
  unicode flag), the greedy \<^verbatim>\<open>\d+\<close> (also written \<^verbatim>\<open>[\d]+\<close>), the greedy \<^verbatim>\<open>?\<close>,
  alternation, concatenation and capture groups.

  A match state is the index reached, the text still to read, and the captures made so
  far (newest first).  \<open>rx_run\<close> lists the states a pattern can reach from a state in the
  order a backtracking matcher tries them; the head of the list is therefore the match
  JavaScript reports.  Characters stand for the code units of a JavaScript string; the
  text of versions, package names and manifest entries is ASCII.
\<close>

datatype rx =
    Bol
  | Eol
  | Lit string
  | Digit
  | DigitPlus
  | Opt rx
  | Alt rx rx
  | Seq rx rx
  | Group nat rx

type_synonym mstate = "nat \<times> string \<times> (nat \<times> string) list"

definition is_digit :: "char \<Rightarrow> bool" where
  "is_digit c = (c \<in> set ''0123456789'')"

fun rx_run :: "rx \<Rightarrow> mstate \<Rightarrow> mstate list" where
  "rx_run Bol (p, s, c) = (if p = 0 then [(p, s, c)] else [])"
| "rx_run Eol (p, s, c) = (if s = [] then [(p, s, c)] else [])"
| "rx_run (Lit l) (p, s, c) =
     (if prefix l s then [(p + length l, drop (length l) s, c)] else [])"
| "rx_run Digit (p, s, c) =
     (case s of [] \<Rightarrow> [] | x # t \<Rightarrow> if is_digit x then [(Suc p, t, c)] else [])"
| "rx_run DigitPlus (p, s, c) =
     map (\<lambda>n. (p + n, drop n s, c)) (rev [1 ..< Suc (length (takeWhile is_digit s))])"
| "rx_run (Opt r) st = rx_run r st @ [st]"
| "rx_run (Alt a b) st = rx_run a st @ rx_run b st"
| "rx_run (Seq a b) st = concat (map (rx_run b) (rx_run a st))"
| "rx_run (Group i r) (p, s, c) =
     map (\<lambda>(p', s', c'). (p', s', (i, take (p' - p) s) # c')) (rx_run r (p, s, c))"

text \<open>
  \<^verbatim>\<open>RegExp.prototype.exec\<close> without the global or sticky flag: try every start index
  from 0 on and report the first match.  \<open>rx_scan r i s\<close> is the search from index \<open>i\<close>,
  with \<open>s\<close> the text from there.
\<close>

definition first_match :: "mstate list \<Rightarrow> mstate option" where
  "first_match sts = (case sts of [] \<Rightarrow> None | st # _ \<Rightarrow> Some st)"

fun rx_scan :: "rx \<Rightarrow> nat \<Rightarrow> string \<Rightarrow> mstate option" where
  "rx_scan r i [] = first_match (rx_run r (i, [], []))"
| "rx_scan r i (x # t) =
     (case first_match (rx_run r (i, x # t, [])) of
        Some st \<Rightarrow> Some st
      | None \<Rightarrow> rx_scan r (Suc i) t)"

definition rx_exec :: "rx \<Rightarrow> string \<Rightarrow> mstate option" where
  "rx_exec r s = rx_scan r 0 s"

text \<open>\<^verbatim>\<open>regex.test(s)\<close>\<close>

definition rx_test :: "rx \<Rightarrow> string \<Rightarrow> bool" where
  "rx_test r s = (rx_exec r s \<noteq> None)"

text \<open>The value of capture group \<open>i\<close> in a match result; \<open>None\<close> is \<^verbatim>\<open>undefined\<close>.\<close>

definition capture :: "mstate \<Rightarrow> nat \<Rightarrow> string option" where
  "capture st i = map_of (snd (snd st)) i"

text \<open>A pattern written as the sequence of its parts.\<close>

fun seqs :: "rx list \<Rightarrow> rx" where
  "seqs [] = Lit []"
| "seqs [r] = r"
| "seqs (r # rs) = Seq r (seqs rs)"

text \<open>\<^verbatim>\<open>(alpha|beta|rc)\<close>, without its parentheses\<close>

definition tag_alt :: rx where
  "tag_alt = Alt (Lit ''alpha'') (Alt (Lit ''beta'') (Lit ''rc''))"

text \<open>\<^verbatim>\<open>const versionRegex = /^(\d+)\.[\d]+\.[\d]+-?(alpha|beta|rc)?/\<close>\<close>

definition versionRegex :: rx where
  "versionRegex =
     seqs [Bol, Group 1 DigitPlus, Lit ''.'', DigitPlus, Lit ''.'', DigitPlus,
           Opt (Lit ''-''), Opt (Group 2 tag_alt)]"

section \<open>The version matcher\<close>

text \<open>
  The command-line flags (\<^verbatim>\<open>minimist\<close> with \<^verbatim>\<open>boolean: ['h', 'i', 'p', 'm']\<close>, so each
  is a boolean).  \<^verbatim>\<open>--help\<close> exits before anything modelled here runs.
\<close>

record argv_t =
  argv_install :: bool
  argv_prerelease :: bool
  argv_major :: bool

text \<open>
  What \<^verbatim>\<open>getLatestVersion\<close> hands back: \<^verbatim>\<open>null\<close>, \<^verbatim>\<open>undefined\<close> or a string.  The
  installed version \<^verbatim>\<open>curVersion\<close> is \<^verbatim>\<open>null\<close> (\<open>None\<close>) or a string.
\<close>

datatype jsval = JSNull | JSUndefined | JSString string

datatype error = TypeError

text \<open>\<^verbatim>\<open>versions[versions.length - 1]\<close> on an array of strings\<close>

definition last_version :: "string list \<Rightarrow> jsval" where
  "last_version versions = (if versions = [] then JSUndefined else JSString (last versions))"

text \<open>
  \<^verbatim>\<open>const [, major, prerelease] = curVersion.match(versionRegex)\<close>: the match is
  \<^verbatim>\<open>null\<close> when the pattern is not found, and destructuring \<^verbatim>\<open>null\<close> throws a TypeError.
\<close>

definition match_version :: "string \<Rightarrow> error + (string option \<times> string option)" where
  "match_version curVersion =
     (case rx_exec versionRegex curVersion of
        None \<Rightarrow> Inl TypeError
      | Some m \<Rightarrow> Inr (capture m 1, capture m 2))"

text \<open>
  The pattern built at lines 99-104.  \<^verbatim>\<open>majorSyntax\<close> is the text \<^verbatim>\<open>(\d+)\<close> under
  \<^verbatim>\<open>--major\<close> and the captured major otherwise; the captured major consists of digits
  only (lemma \<open>match_version_major_digits\<close> below), so spliced into the pattern source it
  reads as literal text.  \<open>truthy\<close>: \<^verbatim>\<open>undefined\<close> and the empty string are falsy.
\<close>

definition truthy :: "string option \<Rightarrow> bool" where
  "truthy x = (case x of Some t \<Rightarrow> t \<noteq> [] | None \<Rightarrow> False)"

definition majorSyntax :: "argv_t \<Rightarrow> string \<Rightarrow> rx" where
  "majorSyntax a major = (if argv_major a then Group 1 DigitPlus else Lit major)"

definition version_rule :: "argv_t \<Rightarrow> string \<Rightarrow> string option \<Rightarrow> rx" where
  "version_rule a major prerelease =
     (let k = (if argv_major a then 1 else 0) in
      if truthy prerelease \<or> argv_prerelease a
      then seqs [Bol, majorSyntax a major, Lit ''.'', Group (k + 1) DigitPlus, Lit ''.'',
                 Group (k + 2) DigitPlus, Opt (Lit ''-''), Opt (Group (k + 3) tag_alt)]
      else seqs [Bol, majorSyntax a major, Lit ''.'', Group (k + 1) DigitPlus, Lit ''.'',
                 Group (k + 2) DigitPlus, Eol])"

text \<open>
  Lines 94-108 of \<^verbatim>\<open>getLatestVersion\<close>, for \<^verbatim>\<open>versions\<close> an array of strings: the
  specification's \<open>selectLatest\<close>.  A first capture group that did not take part would make
  \<^verbatim>\<open>major\<close> the text \<^verbatim>\<open>undefined\<close>; the group is not optional, so this branch is never
  taken (lemma \<open>match_version_major_digits\<close>).
\<close>

definition selectLatest :: "argv_t \<Rightarrow> string list \<Rightarrow> string option \<Rightarrow> error + jsval" where
  "selectLatest a versions curVersion =
     (case curVersion of
        None \<Rightarrow> Inr (last_version versions)
      | Some cur \<Rightarrow>
          (case match_version cur of
             Inl e \<Rightarrow> Inl e
           | Inr (major, prerelease) \<Rightarrow>
               let regex = version_rule a (case major of Some m \<Rightarrow> m | None \<Rightarrow> ''undefined'')
                             prerelease
               in Inr (last_version (filter (\<lambda>version. rx_test regex version) versions))))"

section \<open>The registry query\<close>

text \<open>
  What \<^verbatim>\<open>JSON.parse\<close> can hand back, as far as the command looks into it: \<^verbatim>\<open>null\<close>, a
  string, an array (of version strings: the registry lists versions as strings), a number
  or boolean (\<open>JScalar\<close>), or an object.  Of an object only the fields \<^verbatim>\<open>type\<close> and
  \<^verbatim>\<open>data\<close> are kept (\<open>None\<close>: the field is missing); the command reads no other field of
  an object that has no field named \<^verbatim>\<open>length\<close> or \<^verbatim>\<open>NaN\<close>, and objects with such
  fields are outside the model.
\<close>

datatype json =
    JNull
  | JScalar
  | JStr string
  | JArr "string list"
  | JObj (type_field: "json option") (data_field: "json option")

text \<open>
  The surroundings of the command.  \<open>execSync\<close> is the child process run with the given
  command line: its standard output, or \<open>None\<close> when \<^verbatim>\<open>execSync\<close> throws (the command
  cannot be started or exits with a failure).  \<open>JSON_parse\<close> is \<^verbatim>\<open>JSON.parse\<close>, \<open>None\<close>
  when it throws.  \<open>getPackageJson\<close> gives the \<^verbatim>\<open>version\<close> of an installed package, \<open>None\<close>
  when \<^verbatim>\<open>../lib/get-package-json\<close> returns \<^verbatim>\<open>null\<close>.  \<open>green\<close> and \<open>red\<close> are the
  colouring functions of \<^verbatim>\<open>kolorist\<close>.  The manifest \<open>pkg\<close> is \<^verbatim>\<open>package.json\<close>: each
  dependency group is missing (\<open>None\<close>) or lists its entries in the order of their keys.
\<close>

record manifest =
  dependencies :: "(string \<times> string) list option"
  devDependencies :: "(string \<times> string) list option"

record env =
  argv :: argv_t
  root :: string
  pkg :: manifest
  packager :: string
  getPackageJson :: "string \<Rightarrow> string option"
  execSync :: "string \<Rightarrow> string option"
  JSON_parse :: "string \<Rightarrow> json option"
  green :: "string \<Rightarrow> string"
  red :: "string \<Rightarrow> string"

text \<open>\<^verbatim>\<open>versions.type\<close>: reading a property of \<^verbatim>\<open>null\<close> throws.\<close>

definition get_type :: "json \<Rightarrow> error + json option" where
  "get_type versions =
     (case versions of
        JNull \<Rightarrow> Inl TypeError
      | JObj t d \<Rightarrow> Inr t
      | _ \<Rightarrow> Inr None)"

text \<open>\<^verbatim>\<open>versions.data\<close>, read only after \<^verbatim>\<open>versions.type\<close> did not throw\<close>

definition get_data :: "json \<Rightarrow> json option" where
  "get_data versions = (case versions of JObj t d \<Rightarrow> d | _ \<Rightarrow> None)"

text \<open>
  Lines 94-108 for any value of \<^verbatim>\<open>versions\<close> (\<open>None\<close>: \<^verbatim>\<open>undefined\<close>).  On an array
  this is \<open>selectLatest\<close>.  Otherwise, with no installed version,
  \<^verbatim>\<open>versions[versions.length - 1]\<close> throws on \<^verbatim>\<open>undefined\<close> and \<^verbatim>\<open>null\<close>, is the last
  character of a string, and is \<^verbatim>\<open>undefined\<close> on the rest (their \<^verbatim>\<open>length\<close> is
  \<^verbatim>\<open>undefined\<close>); with an installed version, \<^verbatim>\<open>curVersion.match\<close> comes first and
  then \<^verbatim>\<open>versions.filter\<close> is not a function.
\<close>

definition select_from :: "argv_t \<Rightarrow> json option \<Rightarrow> string option \<Rightarrow> error + jsval" where
  "select_from a versions curVersion =
     (case versions of
        Some (JArr vs) \<Rightarrow> selectLatest a vs curVersion
      | _ \<Rightarrow>
         (case curVersion of
            None \<Rightarrow>
              (case versions of
                 None \<Rightarrow> Inl TypeError
               | Some JNull \<Rightarrow> Inl TypeError
               | Some (JStr s) \<Rightarrow> Inr (if s = [] then JSUndefined else JSString [last s])
               | _ \<Rightarrow> Inr JSUndefined)
          | Some cur \<Rightarrow>
              (case match_version cur of Inl e \<Rightarrow> Inl e | Inr _ \<Rightarrow> Inl TypeError)))"

text \<open>\<^verbatim>\<open>function getLatestVersion (packager, packageName, curVersion)\<close>\<close>

definition getLatestVersion :: "env \<Rightarrow> string \<Rightarrow> string option \<Rightarrow> error + jsval" where
  "getLatestVersion e packageName curVersion =
     (case execSync e (packager e @ '' info '' @ packageName @ '' versions --json'') of
        None \<Rightarrow> Inr JSNull
      | Some out \<Rightarrow>
         (case JSON_parse e out of
            None \<Rightarrow> Inr JSNull
          | Some versions \<Rightarrow>
             (case get_type versions of
                Inl err \<Rightarrow> Inl err
              | Inr t \<Rightarrow>
                 if t = Some (JStr ''error'') then Inr JSNull
                 else select_from (argv e)
                        (if packager e = ''yarn'' then get_data versions else Some versions)
                        curVersion)))"

section \<open>The upgrade orchestrator\<close>

datatype dep_type = Dependencies | DevDependencies

record dep =
  packageName :: string
  latestVersion :: jsval

text \<open>
  What the run does to the outside: a line on standard output, a line through
  \<^verbatim>\<open>../lib/logger\<close>, \<^verbatim>\<open>removeSync(path.join(...))\<close> (the segments joined are kept), and
  \<^verbatim>\<open>spawn(packager, params, root)\<close>.  Registry queries are in \<open>execSync\<close> above.  Both
  \<^verbatim>\<open>removeSync\<close> and \<^verbatim>\<open>spawn\<close> are taken to return.
\<close>

datatype event =
    ConsoleLog string
  | Log string
  | RemoveSync "string list"
  | Spawn string "string list" string

record state =
  deps :: "dep_type \<Rightarrow> dep list"
  updateAvailable :: bool
  removeDeprecatedAppPkg :: bool
  events :: "event list"

definition emit :: "event list \<Rightarrow> state \<Rightarrow> state" where
  "emit evs st = st\<lparr>events := events st @ evs\<rparr>"

text \<open>
  The arrow and the warning sign of the report lines, as the bytes written to standard
  output (UTF-8).
\<close>

definition arrow :: string where
  "arrow = [CHR 0xE2, CHR 0x86, CHR 0x92]"

definition warning_sign :: string where
  "warning_sign = [CHR 0xE2, CHR 0x9A, CHR 0xA0, CHR 0xEF, CHR 0xB8, CHR 0x8F]"

text \<open>A value inside a template literal\<close>

definition to_text :: "jsval \<Rightarrow> string" where
  "to_text v = (case v of JSNull \<Rightarrow> ''null'' | JSUndefined \<Rightarrow> ''undefined'' | JSString s \<Rightarrow> s)"

text \<open>\<^verbatim>\<open>curVersion\<close> as a value, for \<^verbatim>\<open>curVersion !== latestVersion\<close>\<close>

definition cur_value :: "string option \<Rightarrow> jsval" where
  "cur_value curVersion = (case curVersion of None \<Rightarrow> JSNull | Some v \<Rightarrow> JSString v)"

text \<open>\<^verbatim>\<open>Object.keys(pkg[type] || {})\<close>\<close>

definition group_keys :: "manifest \<Rightarrow> dep_type \<Rightarrow> string list" where
  "group_keys m ty =
     (case (case ty of Dependencies \<Rightarrow> dependencies m | DevDependencies \<Rightarrow> devDependencies m) of
        None \<Rightarrow> []
      | Some entries \<Rightarrow> map fst entries)"

text \<open>The packages line 130 does not skip.\<close>

definition isQuasarPackage :: "string \<Rightarrow> bool" where
  "isQuasarPackage name =
     (\<not> (name \<noteq> ''quasar'' \<and> name \<noteq> ''eslint-plugin-quasar'' \<and> \<not> prefix ''@quasar/'' name))"

text \<open>
  Line 140: \<^verbatim>\<open>packageName === '@quasar/app' && curVersion && curVersion.startsWith('3.')\<close>
\<close>

definition isDeprecatedApp :: "string \<Rightarrow> string option \<Rightarrow> bool" where
  "isDeprecatedApp name curVersion =
     (name = ''@quasar/app'' \<and>
      (case curVersion of None \<Rightarrow> False | Some v \<Rightarrow> v \<noteq> [] \<and> prefix ''3.'' v))"

text \<open>
  Lines 145-164: the rest of a turn of the inner loop, once the name to ask the registry
  for is settled.  An exception leaves the loop with the state reached.
\<close>

definition classify :: "env \<Rightarrow> dep_type \<Rightarrow> string \<Rightarrow> string option \<Rightarrow> state \<Rightarrow> (error \<times> state) + state" where
  "classify e ty name curVersion st =
     (case getLatestVersion e name curVersion of
        Inl err \<Rightarrow> Inl (err, st)
      | Inr latest \<Rightarrow>
          let current = (case curVersion of None \<Rightarrow> red e ''Missing!'' | Some v \<Rightarrow> v)
          in if latest = JSNull
             then Inr (emit
               [ConsoleLog ('' '' @ green e name @ '': '' @ current @ '' '' @ arrow @ '' ''
                            @ red e ''Skipping!''),
                ConsoleLog (''   ('' @ warning_sign
                            @ ''  NPM server returned an error, so we cannot detect latest version)'')]
               st)
             else if cur_value curVersion \<noteq> latest
             then Inr (emit
               [ConsoleLog ('' '' @ green e name @ '': '' @ current @ '' '' @ arrow @ '' ''
                            @ to_text latest)]
               (st\<lparr>deps := (deps st)
                       (ty := deps st ty @ [\<lparr>packageName = name, latestVersion = latest\<rparr>]),
                    updateAvailable := True\<rparr>))
             else Inr st)"

text \<open>One turn of the inner loop (lines 128-165).\<close>

definition scan_package :: "env \<Rightarrow> dep_type \<Rightarrow> string \<Rightarrow> state \<Rightarrow> (error \<times> state) + state" where
  "scan_package e ty packageName0 st =
     (if \<not> isQuasarPackage packageName0 then Inr st
      else
        let curVersion = getPackageJson e packageName0
        in if isDeprecatedApp packageName0 curVersion
           then classify e ty ''@quasar/app-webpack'' curVersion
                  (st\<lparr>removeDeprecatedAppPkg := True\<rparr>)
           else classify e ty packageName0 curVersion st)"

fun scan_packages :: "env \<Rightarrow> dep_type \<Rightarrow> string list \<Rightarrow> state \<Rightarrow> (error \<times> state) + state" where
  "scan_packages e ty [] st = Inr st"
| "scan_packages e ty (name # names) st =
     (case scan_package e ty name st of
        Inl x \<Rightarrow> Inl x
      | Inr st' \<Rightarrow> scan_packages e ty names st')"

text \<open>Lines 112-166: the two groups, in the order of the keys of \<^verbatim>\<open>deps\<close>.\<close>

definition init_state :: "env \<Rightarrow> state" where
  "init_state e =
     \<lparr>deps = (\<lambda>ty. []), updateAvailable = False, removeDeprecatedAppPkg = False,
      events = [ConsoleLog [], Log (''Gathering information with '' @ packager e @ ''...''),
                ConsoleLog []]\<rparr>"

definition scan :: "env \<Rightarrow> (error \<times> state) + state" where
  "scan e =
     (case scan_packages e Dependencies (group_keys (pkg e) Dependencies) (init_state e) of
        Inl x \<Rightarrow> Inl x
      | Inr st \<Rightarrow> scan_packages e DevDependencies (group_keys (pkg e) DevDependencies) st)"

text \<open>
  Lines 217-221: \<^verbatim>\<open>pkg.dependencies[name] || pkg.devDependencies[name] || '^'\<close>.  Reading
  an entry of a missing group throws; an empty string is falsy.
\<close>

definition manifest_entry :: "manifest \<Rightarrow> string \<Rightarrow> error + string" where
  "manifest_entry m name =
     (case dependencies m of
        None \<Rightarrow> Inl TypeError
      | Some ds \<Rightarrow>
         (case map_of ds name of
            Some v \<Rightarrow>
              if v \<noteq> [] then Inr v
              else (case devDependencies m of
                      None \<Rightarrow> Inl TypeError
                    | Some dds \<Rightarrow>
                       (case map_of dds name of
                          Some w \<Rightarrow> if w \<noteq> [] then Inr w else Inr ''^''
                        | None \<Rightarrow> Inr ''^''))
          | None \<Rightarrow>
              (case devDependencies m of
                 None \<Rightarrow> Inl TypeError
               | Some dds \<Rightarrow>
                  (case map_of dds name of
                     Some w \<Rightarrow> if w \<noteq> [] then Inr w else Inr ''^''
                   | None \<Rightarrow> Inr ''^''))))"

text \<open>\<^verbatim>\<open>/^\d/\<close>\<close>

definition pinnedRegex :: rx where
  "pinnedRegex = Seq Bol Digit"

text \<open>
  The body of \<^verbatim>\<open>deps[type].forEach\<close> (lines 212-224), over the remaining entries:
  \<^verbatim>\<open>params\<close> grows by one argument per entry.
\<close>

fun forEach_dep :: "env \<Rightarrow> dep list \<Rightarrow> string list \<Rightarrow> state \<Rightarrow> (error \<times> state) + (string list \<times> state)" where
  "forEach_dep e [] params st = Inr (params, st)"
| "forEach_dep e (d # ds) params st =
     (let st1 = emit [RemoveSync [root e, ''node_modules'', packageName d]] st
      in case manifest_entry (pkg e) (packageName d) of
           Inl err \<Rightarrow> Inl (err, st1)
         | Inr entry \<Rightarrow>
             let pinned = rx_test pinnedRegex entry
             in forEach_dep e ds
                  (params @ [packageName d @ ''@'' @ (if pinned then [] else ''^'')
                             @ to_text (latestVersion d)])
                  st1)"

text \<open>Lines 208-210\<close>

definition install_params :: "string \<Rightarrow> dep_type \<Rightarrow> string list" where
  "install_params pm ty =
     (if pm = ''yarn''
      then (if ty = DevDependencies then [''add'', ''--dev''] else [''add''])
      else [''install'', ''--save'' @ (if ty = DevDependencies then ''--dev'' else [])])"

text \<open>One turn of the loop at lines 203-228\<close>

definition install_group :: "env \<Rightarrow> dep_type \<Rightarrow> state \<Rightarrow> (error \<times> state) + state" where
  "install_group e ty st =
     (if length (deps st ty) = 0 then Inr st
      else case forEach_dep e (deps st ty) (install_params (packager e) ty) st of
             Inl x \<Rightarrow> Inl x
           | Inr (params, st1) \<Rightarrow>
               Inr (emit [ConsoleLog [], Spawn (packager e) params (root e)] st1))"

text \<open>Lines 190-201\<close>

definition remove_deprecated :: "env \<Rightarrow> state \<Rightarrow> state" where
  "remove_deprecated e st =
     (if removeDeprecatedAppPkg st = True
      then emit [RemoveSync [root e, ''node_modules/@quasar/app''],
                 ConsoleLog [],
                 Spawn (packager e)
                   (if packager e = ''yarn'' then [''remove'', ''@quasar/app'']
                    else [''uninstall'', ''--save--dev'', ''@quasar/app''])
                   (root e)]
             st
      else st)"

text \<open>Lines 176-178: \<^verbatim>\<open>params.join(' ')\<close>\<close>

definition rerun_params :: "argv_t \<Rightarrow> string" where
  "rerun_params a =
     ''-i'' @ (if argv_prerelease a then '' -p'' else []) @ (if argv_major a then '' -m'' else [])"

text \<open>Lines 168-231: what follows the scan.\<close>

definition finish :: "env \<Rightarrow> state \<Rightarrow> (error \<times> state) + state" where
  "finish e st =
     (if \<not> updateAvailable st
      then Inr (emit [ConsoleLog (''  Congrats! All Quasar packages are up to date.'' @ [CHR 0x0A])] st)
      else if \<not> argv_install (argv e)
      then Inr (emit
        [ConsoleLog [],
         ConsoleLog ('' See '' @ green e ''https://quasar.dev/start/release-notes''
                     @ '' for release notes.''),
         ConsoleLog ('' Run '' @ [CHR 0x22] @ ''quasar upgrade '' @ rerun_params (argv e)
                     @ [CHR 0x22] @ '' to do the actual upgrade.''),
         ConsoleLog []]
        st)
      else
        case install_group e Dependencies (remove_deprecated e st) of
          Inl x \<Rightarrow> Inl x
        | Inr st1 \<Rightarrow>
           (case install_group e DevDependencies st1 of
              Inl x \<Rightarrow> Inl x
            | Inr st2 \<Rightarrow>
               Inr (emit [ConsoleLog [],
                          Log (''Successfully upgraded Quasar packages.'' @ [CHR 0x0A])]
                     st2)))"

text \<open>\<^verbatim>\<open>function upgradeQuasar ()\<close>\<close>

definition upgradeQuasar :: "env \<Rightarrow> (error \<times> state) + state" where
  "upgradeQuasar e = (case scan e of Inl x \<Rightarrow> Inl x | Inr st \<Rightarrow> finish e st)"

section \<open>The extension resolver\<close>

text \<open>
  \<^verbatim>\<open>src/app-vite/lib/helpers/resolve-extension.js\<close>.  \<open>existsSync\<close> is the file system as
  \<^verbatim>\<open>fs.existsSync\<close> sees it.  Falling off the end of the loop returns \<^verbatim>\<open>undefined\<close>
  (\<open>None\<close>).
\<close>

definition extensions :: "string list" where
  "extensions = ['''', ''.js'', ''.ts'', ''.jsx'', ''.tsx'']"

fun resolve_loop :: "(string \<Rightarrow> bool) \<Rightarrow> string \<Rightarrow> string list \<Rightarrow> string option" where
  "resolve_loop existsSync file [] = None"
| "resolve_loop existsSync file (ext # exts) =
     (let entry = file @ ext
      in if existsSync entry = True then Some entry else resolve_loop existsSync file exts)"

definition resolveExtension :: "(string \<Rightarrow> bool) \<Rightarrow> string \<Rightarrow> string option" where
  "resolveExtension existsSync file = resolve_loop existsSync file extensions"

section \<open>Reference notions\<close>

text \<open>
  The specification speaks of a semantic version: three numeric components and what
  follows them.  \<open>semver s major minor patch rest\<close> reads \<open>s\<close> that way, with \<open>patch\<close>
  taking every digit it can, so the reading of a string is unique; \<open>rest = []\<close> is an
  exact \<^verbatim>\<open>major.minor.patch\<close>.  \<open>tag_of rest\<close> is the pre-release tag the remainder
  starts with, after an optional hyphen.
\<close>

definition digits1 :: "string \<Rightarrow> bool" where
  "digits1 s = (s \<noteq> [] \<and> list_all is_digit s)"

definition semver :: "string \<Rightarrow> string \<Rightarrow> string \<Rightarrow> string \<Rightarrow> string \<Rightarrow> bool" where
  "semver s major minor patch rest =
     (s = major @ ''.'' @ minor @ ''.'' @ patch @ rest \<and>
      digits1 major \<and> digits1 minor \<and> digits1 patch \<and>
      (case rest of [] \<Rightarrow> True | x # _ \<Rightarrow> \<not> is_digit x))"

definition tag_start :: "string \<Rightarrow> string option" where
  "tag_start s =
     (if prefix ''alpha'' s then Some ''alpha''
      else if prefix ''beta'' s then Some ''beta''
      else if prefix ''rc'' s then Some ''rc''
      else None)"

definition tag_of :: "string \<Rightarrow> string option" where
  "tag_of s = tag_start (if prefix ''-'' s then drop 1 s else s)"

text \<open>
  A reader of versions that never backtracks, used to show what the patterns accept:
  a run of digits and a dot, twice, and a last run of digits.
\<close>

definition digits_dot :: "string \<Rightarrow> (string \<times> string) option" where
  "digits_dot s =
     (if takeWhile is_digit s \<noteq> [] \<and> prefix ''.'' (dropWhile is_digit s)
      then Some (takeWhile is_digit s, drop 1 (dropWhile is_digit s)) else None)"

definition split_version :: "string \<Rightarrow> (string \<times> string \<times> string \<times> string) option" where
  "split_version s =
     (case digits_dot s of
        None \<Rightarrow> None
      | Some (major, r1) \<Rightarrow>
         (case digits_dot r1 of
            None \<Rightarrow> None
          | Some (minor, r2) \<Rightarrow>
              if takeWhile is_digit r2 = [] then None
              else Some (major, minor, takeWhile is_digit r2, dropWhile is_digit r2)))"

text \<open>The state after \<^verbatim>\<open>-?\<close> and after \<^verbatim>\<open>(alpha|beta|rc)?\<close>, each taking what it can.\<close>

definition hyphen_state :: "mstate \<Rightarrow> mstate" where
  "hyphen_state st =
     (case st of (p, s, c) \<Rightarrow> if prefix ''-'' s then (Suc p, drop 1 s, c) else (p, s, c))"

definition tag_state :: "nat \<Rightarrow> mstate \<Rightarrow> mstate" where
  "tag_state i st =
     (case st of (p, s, c) \<Rightarrow>
        (case tag_start s of
           None \<Rightarrow> (p, s, c)
         | Some t \<Rightarrow> (p + length t, drop (length t) s, (i, t) # c)))"

text \<open>
  For the orchestrator: the events that touch the project (a deletion or a package-manager
  run), and the state a run ends in whether it returns or throws.
\<close>

definition is_effect :: "event \<Rightarrow> bool" where
  "is_effect ev = (case ev of RemoveSync _ \<Rightarrow> True | Spawn _ _ _ \<Rightarrow> True | _ \<Rightarrow> False)"

definition final_state :: "(error \<times> state) + state \<Rightarrow> state" where
  "final_state r = (case r of Inl (err, st) \<Rightarrow> st | Inr st \<Rightarrow> st)"

text \<open>
  What holds of the state all through the scan: nothing has touched the project, and the
  flag \<^verbatim>\<open>updateAvailable\<close> is set exactly when the plan has an entry.
\<close>

definition scan_inv :: "state \<Rightarrow> bool" where
  "scan_inv st =
     (filter is_effect (events st) = [] \<and>
      updateAvailable st = (deps st Dependencies \<noteq> [] \<or> deps st DevDependencies \<noteq> []))"

text \<open>
  Sample surroundings for the concrete runs below.  In \<open>sample_env\<close> the project uses
  npm and is run with \<^verbatim>\<open>--install\<close>; \<^verbatim>\<open>quasar\<close> 2.0.0 and \<^verbatim>\<open>@quasar/app\<close> 3.0.0 are
  installed, \<^verbatim>\<open>@quasar/extras\<close> is not, and the registry knows newer versions of each.
  In \<open>offline_env\<close> every registry query fails.  In \<open>settled_env\<close> the one Quasar package
  is at the newest version the registry lists.  In \<open>stale_env\<close> the installed
  \<^verbatim>\<open>quasar\<close> 5.0.0 is ahead of every version the registry lists.  In \<open>twice_env\<close>
  \<^verbatim>\<open>quasar\<close> is listed in both groups, as a caret range under \<^verbatim>\<open>dependencies\<close> and as an
  exact version under \<^verbatim>\<open>devDependencies\<close>.
\<close>

definition no_flags :: argv_t where
  "no_flags = \<lparr>argv_install = False, argv_prerelease = False, argv_major = False\<rparr>"

definition sample_pkg :: manifest where
  "sample_pkg =
     \<lparr>dependencies = Some [(''quasar'', ''^2.0.0''), (''vue'', ''^3.0.0'')],
      devDependencies = Some [(''@quasar/app'', ''3.0.0''), (''@quasar/extras'', ''1.0.0'')]\<rparr>"

definition sample_installed :: "string \<Rightarrow> string option" where
  "sample_installed name =
     (if name = ''quasar'' then Some ''2.0.0''
      else if name = ''@quasar/app'' then Some ''3.0.0''
      else if name = ''vue'' then Some ''3.0.0''
      else None)"

definition sample_execSync :: "string \<Rightarrow> string option" where
  \<open>sample_execSync cmd =
     (if cmd = ''npm info quasar versions --json'' then Some ''["2.0.0","2.0.1"]''
      else if cmd = ''npm info @quasar/app-webpack versions --json''
      then Some ''["3.0.0","3.1.0","4.0.0"]''
      else if cmd = ''npm info @quasar/extras versions --json'' then Some ''["1.0.0","1.1.0"]''
      else None)\<close>

definition sample_parse :: "string \<Rightarrow> json option" where
  \<open>sample_parse out =
     (if out = ''["2.0.0","2.0.1"]'' then Some (JArr [''2.0.0'', ''2.0.1''])
      else if out = ''["3.0.0","3.1.0","4.0.0"]'' then Some (JArr [''3.0.0'', ''3.1.0'', ''4.0.0''])
      else if out = ''["1.0.0","1.1.0"]'' then Some (JArr [''1.0.0'', ''1.1.0''])
      else None)\<close>

definition plain :: "string \<Rightarrow> string" where
  "plain s = s"

definition sample_env :: env where
  "sample_env =
     \<lparr>argv = no_flags\<lparr>argv_install := True\<rparr>, root = ''/project'', pkg = sample_pkg,
      packager = ''npm'', getPackageJson = sample_installed, execSync = sample_execSync,
      JSON_parse = sample_parse, green = plain, red = plain\<rparr>"

definition no_answer :: "string \<Rightarrow> string option" where
  "no_answer cmd = None"

definition offline_env :: env where
  "offline_env = sample_env\<lparr>execSync := no_answer\<rparr>"

definition settled_installed :: "string \<Rightarrow> string option" where
  "settled_installed name = (if name = ''quasar'' then Some ''2.0.1'' else None)"

definition settled_env :: env where
  "settled_env =
     sample_env\<lparr>pkg := \<lparr>dependencies = Some [(''quasar'', ''^2.0.0'')], devDependencies = None\<rparr>,
                getPackageJson := settled_installed\<rparr>"

definition stale_installed :: "string \<Rightarrow> string option" where
  "stale_installed name = (if name = ''quasar'' then Some ''5.0.0'' else None)"

definition stale_env :: env where
  "stale_env =
     sample_env\<lparr>pkg := \<lparr>dependencies = Some [(''quasar'', ''^5.0.0'')], devDependencies = Some []\<rparr>,
                getPackageJson := stale_installed\<rparr>"

definition twice_env :: env where
  "twice_env =
     sample_env\<lparr>pkg := \<lparr>dependencies = Some [(''quasar'', ''^2.0.0'')],
                        devDependencies = Some [(''quasar'', ''2.0.0'')]\<rparr>\<rparr>"

text \<open>
  A sample file system for the resolver: \<^verbatim>\<open>src/boot/axios\<close> exists with and without
  \<^verbatim>\<open>.js\<close>, \<^verbatim>\<open>src/router/index\<close> only with \<^verbatim>\<open>.ts\<close> and \<^verbatim>\<open>.tsx\<close>.
\<close>

definition sample_exists :: "string \<Rightarrow> bool" where
  "sample_exists path =
     (path = ''src/boot/axios'' \<or> path = ''src/boot/axios.js'' \<or>
      path = ''src/router/index.ts'' \<or> path = ''src/router/index.tsx'')"

section \<open>The matcher on the shapes the patterns have\<close>

lemma first_match_simps [simp]: "first_match [] = None" "first_match (x # xs) = Some x"
  by (simp_all add: first_match_def)

lemma rx_scan_Bol_pos: "0 < i \<Longrightarrow> rx_scan (Seq Bol r) i s = None"
  by (induction s arbitrary: i) auto

lemma rx_exec_Bol: "rx_exec (Seq Bol r) s = first_match (rx_run r (0, s, []))"
  by (cases s) (auto simp: rx_exec_def rx_scan_Bol_pos split: option.splits)

lemma rx_test_Bol: "rx_test (Seq Bol r) s = (rx_run r (0, s, []) \<noteq> [])"
  by (cases "rx_run r (0, s, [])") (simp_all add: rx_test_def rx_exec_Bol)

lemma digit_prefix_nth:
  "n < length (takeWhile is_digit s) \<Longrightarrow> \<exists>x t. drop n s = x # t \<and> is_digit x"
proof (induction s arbitrary: n)
  case Nil
  then show ?case by simp
next
  case (Cons a s)
  then show ?case by (cases n) (auto split: if_splits)
qed

lemma drop_length_takeWhile: "drop (length (takeWhile P s)) s = dropWhile P s"
  by (induction s) auto

lemma take_length_takeWhile: "take (length (takeWhile P s)) s = takeWhile P s"
  by (induction s) auto

lemma concat_map_all_Nil: "(\<And>x. x \<in> set xs \<Longrightarrow> f x = []) \<Longrightarrow> concat (map f xs) = []"
  by (induction xs) auto

lemma greedy_digits_then:
  assumes "\<And>n. 0 < n \<Longrightarrow> n < length (takeWhile is_digit s) \<Longrightarrow> g n = []"
  shows "concat (map g (rev [1 ..< Suc (length (takeWhile is_digit s))])) =
         (if takeWhile is_digit s = [] then [] else g (length (takeWhile is_digit s)))"
proof (cases "length (takeWhile is_digit s)")
  case 0
  then show ?thesis by simp
next
  case (Suc k)
  have "concat (map g (rev [1 ..< Suc k])) = []"
    using assms Suc by (intro concat_map_all_Nil) auto
  then show ?thesis using Suc by auto
qed

lemma DigitPlus_then:
  assumes "\<And>n x t. 0 < n \<Longrightarrow> is_digit x \<Longrightarrow> rx_run r (p + n, x # t, c) = []"
  shows "rx_run (Seq DigitPlus r) (p, s, c) =
         (if takeWhile is_digit s = [] then []
          else rx_run r (p + length (takeWhile is_digit s), dropWhile is_digit s, c))"
proof -
  have "rx_run (Seq DigitPlus r) (p, s, c) =
        concat (map (\<lambda>n. rx_run r (p + n, drop n s, c)) (rev [1 ..< Suc (length (takeWhile is_digit s))]))"
    by (simp add: comp_def)
  also have "\<dots> = (if takeWhile is_digit s = [] then []
          else rx_run r (p + length (takeWhile is_digit s), drop (length (takeWhile is_digit s)) s, c))"
  proof (rule greedy_digits_then)
    fix n assume "0 < n" "n < length (takeWhile is_digit s)"
    then obtain x t where "drop n s = x # t" "is_digit x" using digit_prefix_nth by blast
    then show "rx_run r (p + n, drop n s, c) = []" using assms \<open>0 < n\<close> by simp
  qed
  finally show ?thesis by (simp add: drop_length_takeWhile)
qed

lemma Group_DigitPlus_then:
  assumes "\<And>n x t c'. 0 < n \<Longrightarrow> is_digit x \<Longrightarrow> rx_run r (p + n, x # t, c') = []"
  shows "rx_run (Seq (Group i DigitPlus) r) (p, s, c) =
         (if takeWhile is_digit s = [] then []
          else rx_run r (p + length (takeWhile is_digit s), dropWhile is_digit s,
                         (i, takeWhile is_digit s) # c))"
proof -
  have "rx_run (Seq (Group i DigitPlus) r) (p, s, c) =
        concat (map (\<lambda>n. rx_run r (p + n, drop n s, (i, take n s) # c)) (rev [1 ..< Suc (length (takeWhile is_digit s))]))"
    by (simp add: comp_def)
  also have "\<dots> = (if takeWhile is_digit s = [] then []
          else rx_run r (p + length (takeWhile is_digit s), drop (length (takeWhile is_digit s)) s, 
              (i, take (length (takeWhile is_digit s)) s) # c))"
  proof (rule greedy_digits_then)
    fix n assume "0 < n" "n < length (takeWhile is_digit s)"
    then obtain x t where "drop n s = x # t" "is_digit x" using digit_prefix_nth by blast
    then show "rx_run r (p + n, drop n s, (i, take n s) # c) = []" using assms \<open>0 < n\<close> by simp
  qed
  finally show ?thesis by (simp add: drop_length_takeWhile take_length_takeWhile)
qed

lemma not_digit_dot [simp]: "\<not> is_digit CHR ''.''"
  by (simp add: is_digit_def)

lemma Lit_dot_digit: "is_digit x \<Longrightarrow> rx_run (Seq (Lit ''.'') r) (p, x # t, c) = []"
  by auto

lemma Lit_dot_run:
  "rx_run (Seq (Lit ''.'') r) (p, s, c) =
     (if prefix ''.'' s then rx_run r (Suc p, drop 1 s, c) else [])"
  by simp

lemma prefix_take: "prefix l s \<Longrightarrow> take (length l) s = l"
  by (auto simp: prefix_def)

lemma tag_takes:
  "prefix ''alpha'' t \<Longrightarrow> take 5 t = ''alpha''"
  "prefix ''beta'' t \<Longrightarrow> take 4 t = ''beta''"
  "prefix ''rc'' t \<Longrightarrow> take 2 t = ''rc''"
  using prefix_take[of "''alpha''" t] prefix_take[of "''beta''" t] prefix_take[of "''rc''" t]
  by (simp_all add: eval_nat_numeral)

lemma Opt_tag_hd:
  "\<exists>rest. rx_run (Opt (Group i tag_alt)) (p, s, c) = tag_state i (p, s, c) # rest"
  by (simp add: tag_alt_def tag_state_def tag_start_def tag_takes)

lemma tail_run_hd:
  "\<exists>rest. rx_run (Seq (Opt (Lit ''-'')) (Opt (Group i tag_alt))) st =
     tag_state i (hyphen_state st) # rest"
proof -
  obtain p s c where st: "st = (p, s, c)" by (cases st) auto
  obtain q t d where h: "hyphen_state st = (q, t, d)" by (cases "hyphen_state st") auto
  from Opt_tag_hd[of i q t d] obtain rest where
    r: "rx_run (Opt (Group i tag_alt)) (q, t, d) = tag_state i (q, t, d) # rest" by blast
  have "\<exists>xs. rx_run (Opt (Lit ''-'')) st = hyphen_state st # xs"
    by (simp add: st hyphen_state_def)
  then obtain xs where "rx_run (Opt (Lit ''-'')) st = (q, t, d) # xs" using h by auto
  then show ?thesis using r h by (simp del: rx_run.simps(3,6,9) add: rx_run.simps(8))
qed

lemma rx_run_Seq_hd:
  "rx_run a st = x # xs \<Longrightarrow> rx_run b x = y # ys \<Longrightarrow> \<exists>zs. rx_run (Seq a b) st = y # zs"
  by simp

lemma DigitPlus_hd:
  assumes "takeWhile is_digit s \<noteq> []"
  shows "\<exists>xs. rx_run DigitPlus (p, s, c) =
               (p + length (takeWhile is_digit s), dropWhile is_digit s, c) # xs"
proof -
  obtain k where k: "length (takeWhile is_digit s) = Suc k"
    using assms by (cases "takeWhile is_digit s") auto
  show ?thesis using k drop_length_takeWhile[of is_digit s] by simp
qed

lemma Group_DigitPlus_hd:
  assumes "takeWhile is_digit s \<noteq> []"
  shows "\<exists>xs. rx_run (Group i DigitPlus) (p, s, c) =
               (p + length (takeWhile is_digit s), dropWhile is_digit s,
                (i, takeWhile is_digit s) # c) # xs"
proof -
  obtain k where k: "length (takeWhile is_digit s) = Suc k"
    using assms by (cases "takeWhile is_digit s") auto
  show ?thesis using k drop_length_takeWhile[of is_digit s] take_length_takeWhile[of is_digit s] by simp
qed

lemma Group_digits_dot:
  "rx_run (Seq (Group i DigitPlus) (Seq (Lit ''.'') r)) (p, s, c) =
     (if takeWhile is_digit s = [] then []
      else rx_run (Seq (Lit ''.'') r) (p + length (takeWhile is_digit s), dropWhile is_digit s,
                         (i, takeWhile is_digit s) # c))"
  by (rule Group_DigitPlus_then) (rule Lit_dot_digit)

lemma digits_dot_run:
  "rx_run (Seq DigitPlus (Seq (Lit ''.'') r)) (p, s, c) =
     (if takeWhile is_digit s = [] then []
      else rx_run (Seq (Lit ''.'') r) (p + length (takeWhile is_digit s), dropWhile is_digit s, c))"
  by (rule DigitPlus_then) (rule Lit_dot_digit)

lemma first_match_digits_tail:
  "first_match (rx_run (Seq DigitPlus (Seq (Opt (Lit ''-'')) (Opt (Group i tag_alt)))) (p, s, c)) =
     (if takeWhile is_digit s = [] then None
      else Some (tag_state i (hyphen_state (p + length (takeWhile is_digit s), dropWhile is_digit s, c))))"
proof (cases "takeWhile is_digit s = []")
  case True
  then show ?thesis by simp
next
  case False
  from DigitPlus_hd[OF False] obtain xs where
    1: "rx_run DigitPlus (p, s, c) = (p + length (takeWhile is_digit s), dropWhile is_digit s, c) # xs"
    by blast
  from tail_run_hd obtain rest where
    2: "rx_run (Seq (Opt (Lit ''-'')) (Opt (Group i tag_alt))) (p + length (takeWhile is_digit s), dropWhile is_digit s, c)
        = tag_state i (hyphen_state (p + length (takeWhile is_digit s), dropWhile is_digit s, c)) # rest"
    by blast
  from rx_run_Seq_hd[OF 1 2] obtain zs where
    "rx_run (Seq DigitPlus (Seq (Opt (Lit ''-'')) (Opt (Group i tag_alt)))) (p, s, c) =
       tag_state i (hyphen_state (p + length (takeWhile is_digit s), dropWhile is_digit s, c)) # zs"
    by blast
  then show ?thesis using False by (simp del: rx_run.simps)
qed

lemma match_version_split:
  "match_version s =
     (case split_version s of
        None \<Rightarrow> Inl TypeError
      | Some (major, minor, patch, rest) \<Rightarrow> Inr (Some major, tag_of rest))"
proof -
  have 1: "rx_exec versionRegex s = first_match (rx_run (seqs [Group 1 DigitPlus, Lit ''.'', DigitPlus, Lit ''.'', DigitPlus,
           Opt (Lit ''-''), Opt (Group 2 tag_alt)]) (0, s, []))"
    unfolding versionRegex_def by (simp add: rx_exec_Bol del: rx_run.simps)
  show ?thesis
    unfolding match_version_def 1
    apply (simp del: rx_run.simps add: Group_digits_dot digits_dot_run Lit_dot_run first_match_digits_tail)
    apply (auto simp: split_version_def digits_dot_def tag_state_def hyphen_state_def tag_of_def capture_def Let_def split: option.splits)
    done
qed

lemma takeWhile_digits1:
  assumes "digits1 d" "case t of [] \<Rightarrow> True | x # _ \<Rightarrow> \<not> is_digit x"
  shows "takeWhile is_digit (d @ t) = d" "dropWhile is_digit (d @ t) = t"
proof -
  have d: "\<And>x. x \<in> set d \<Longrightarrow> is_digit x" using assms(1) by (simp add: digits1_def list_all_iff)
  have t: "takeWhile is_digit t = []" "dropWhile is_digit t = t"
    using assms(2) by (cases t; simp)+
  show "takeWhile is_digit (d @ t) = d" using d t by (simp add: takeWhile_append2)
  show "dropWhile is_digit (d @ t) = t" using d t by (simp add: dropWhile_append2)
qed

lemma digits1_takeWhile: "takeWhile is_digit s \<noteq> [] \<Longrightarrow> digits1 (takeWhile is_digit s)"
  by (auto simp: digits1_def list_all_iff dest: set_takeWhileD)

lemma dropWhile_start: "case dropWhile is_digit s of [] \<Rightarrow> True | x # _ \<Rightarrow> \<not> is_digit x"
  by (induction s) auto

lemma digits_dot_iff:
  "digits_dot s = Some (d, r) \<longleftrightarrow> (s = d @ ''.'' @ r \<and> digits1 d)"
proof
  assume "digits_dot s = Some (d, r)"
  then have 1: "takeWhile is_digit s \<noteq> []" "prefix ''.'' (dropWhile is_digit s)"
    "d = takeWhile is_digit s" "r = drop 1 (dropWhile is_digit s)"
    by (auto simp: digits_dot_def split: if_splits)
  from 1(2) have "dropWhile is_digit s = ''.'' @ r" using 1(4) by (auto simp: prefix_def)
  then have "s = d @ ''.'' @ r" using 1(3) takeWhile_dropWhile_id[of is_digit s] by simp
  then show "s = d @ ''.'' @ r \<and> digits1 d" using 1 digits1_takeWhile by simp
next
  assume a: "s = d @ ''.'' @ r \<and> digits1 d"
  then have "takeWhile is_digit s = d" "dropWhile is_digit s = ''.'' @ r"
    using takeWhile_digits1[of d "''.'' @ r"] by auto
  then show "digits_dot s = Some (d, r)" using a by (auto simp: digits_dot_def digits1_def)
qed

lemma split_version_iff:
  "split_version s = Some (major, minor, patch, rest) \<longleftrightarrow> semver s major minor patch rest"
proof
  assume "split_version s = Some (major, minor, patch, rest)"
  then obtain r1 r2 where 1: "digits_dot s = Some (major, r1)" "digits_dot r1 = Some (minor, r2)"
    "takeWhile is_digit r2 \<noteq> []" "patch = takeWhile is_digit r2" "rest = dropWhile is_digit r2"
    by (auto simp: split_version_def split: option.splits if_splits)
  have "r2 = patch @ rest" using 1 by simp
  then show "semver s major minor patch rest"
    using 1 digits1_takeWhile[of r2] dropWhile_start[of r2]
    by (auto simp: semver_def digits_dot_iff)
next
  assume a: "semver s major minor patch rest"
  then have 1: "digits_dot s = Some (major, minor @ ''.'' @ patch @ rest)"
    and 2: "digits_dot (minor @ ''.'' @ patch @ rest) = Some (minor, patch @ rest)"
    by (auto simp: semver_def digits_dot_iff)
  have "takeWhile is_digit (patch @ rest) = patch" "dropWhile is_digit (patch @ rest) = rest"
    using a takeWhile_digits1[of patch rest] by (auto simp: semver_def)
  then show "split_version s = Some (major, minor, patch, rest)"
    using 1 2 a by (auto simp: split_version_def semver_def digits1_def)
qed

lemma Group_digits_Eol:
  "rx_run (Seq (Group i DigitPlus) Eol) (p, s, c) \<noteq> [] \<longleftrightarrow>
     takeWhile is_digit s \<noteq> [] \<and> dropWhile is_digit s = []"
proof -
  have "rx_run (Seq (Group i DigitPlus) Eol) (p, s, c) =
     (if takeWhile is_digit s = [] then []
      else rx_run Eol (p + length (takeWhile is_digit s), dropWhile is_digit s,
                         (i, takeWhile is_digit s) # c))"
    by (rule Group_DigitPlus_then) simp
  then show ?thesis by simp
qed

lemma Group_digits_tail:
  "rx_run (Seq (Group i DigitPlus) (Seq (Opt (Lit ''-'')) (Opt (Group j tag_alt)))) (p, s, c) \<noteq> []
     \<longleftrightarrow> takeWhile is_digit s \<noteq> []"
proof (cases "takeWhile is_digit s = []")
  case True
  then show ?thesis by simp
next
  case False
  from Group_DigitPlus_hd[OF False] obtain st xs where
    1: "rx_run (Group i DigitPlus) (p, s, c) = st # xs" by blast
  from tail_run_hd obtain y ys where
    2: "rx_run (Seq (Opt (Lit ''-'')) (Opt (Group j tag_alt))) st = y # ys" by blast
  from rx_run_Seq_hd[OF 1 2] obtain zs where
    "rx_run (Seq (Group i DigitPlus) (Seq (Opt (Lit ''-'')) (Opt (Group j tag_alt)))) (p, s, c) = y # zs"
    by blast
  then show ?thesis using False by (simp del: rx_run.simps)
qed

lemma prefix_digits_dot:
  assumes "digits1 d"
  shows "prefix d s \<and> prefix ''.'' (drop (length d) s) \<longleftrightarrow>
         digits_dot s = Some (d, drop (Suc (length d)) s)"
proof
  assume a: "prefix d s \<and> prefix ''.'' (drop (length d) s)"
  then obtain t where t: "s = d @ t" by (auto simp: prefix_def)
  with a obtain r where "t = ''.'' @ r" by (auto simp: prefix_def)
  with t have "s = d @ ''.'' @ r" by simp
  then show "digits_dot s = Some (d, drop (Suc (length d)) s)"
    using assms by (simp add: digits_dot_iff)
next
  assume "digits_dot s = Some (d, drop (Suc (length d)) s)"
  then have "s = d @ ''.'' @ drop (Suc (length d)) s" by (simp add: digits_dot_iff)
  then obtain r where "s = d @ ''.'' @ r" by blast
  then show "prefix d s \<and> prefix ''.'' (drop (length d) s)" by simp
qed

lemma Lit_ne:
  "rx_run (Seq (Lit l) r) (p, s, c) \<noteq> [] \<longleftrightarrow>
     prefix l s \<and> rx_run r (p + length l, drop (length l) s, c) \<noteq> []"
  by simp

lemma Group_digits_dot_ne:
  "rx_run (Seq (Group i DigitPlus) (Seq (Lit ''.'') r)) (p, s, c) \<noteq> [] \<longleftrightarrow>
     takeWhile is_digit s \<noteq> [] \<and> prefix ''.'' (dropWhile is_digit s) \<and>
     rx_run r (Suc (p + length (takeWhile is_digit s)), drop 1 (dropWhile is_digit s),
               (i, takeWhile is_digit s) # c) \<noteq> []"
  by (simp only: Group_digits_dot Lit_dot_run) auto

lemma split_version_fixed:
  assumes "digits1 major"
  shows "(prefix major v \<and> prefix ''.'' (drop (length major) v) \<and>
          takeWhile is_digit (drop (Suc (length major)) v) \<noteq> [] \<and>
          prefix ''.'' (dropWhile is_digit (drop (Suc (length major)) v)) \<and>
          takeWhile is_digit (drop 1 (dropWhile is_digit (drop (Suc (length major)) v))) \<noteq> [] \<and>
          P (dropWhile is_digit (drop 1 (dropWhile is_digit (drop (Suc (length major)) v)))))
         \<longleftrightarrow> (\<exists>minor patch rest. split_version v = Some (major, minor, patch, rest) \<and> P rest)"
proof (cases "digits_dot v = Some (major, drop (Suc (length major)) v)")
  case True
  then show ?thesis
    using prefix_digits_dot[OF assms(1), of v]
    by (simp add: split_version_def) (simp add: digits_dot_def)
next
  case False
  then have "digits_dot v \<noteq> Some (major, r)" for r
    by (auto simp: digits_dot_iff)
  then show ?thesis
    using False prefix_digits_dot[OF assms(1), of v]
    by (auto simp: split_version_def split: option.splits)
qed

lemma split_version_any:
  "(takeWhile is_digit v \<noteq> [] \<and> prefix ''.'' (dropWhile is_digit v) \<and>
    takeWhile is_digit (drop 1 (dropWhile is_digit v)) \<noteq> [] \<and>
    prefix ''.'' (dropWhile is_digit (drop 1 (dropWhile is_digit v))) \<and>
    takeWhile is_digit (drop 1 (dropWhile is_digit (drop 1 (dropWhile is_digit v)))) \<noteq> [] \<and>
    P (dropWhile is_digit (drop 1 (dropWhile is_digit (drop 1 (dropWhile is_digit v))))))
   \<longleftrightarrow> (\<exists>major minor patch rest. split_version v = Some (major, minor, patch, rest) \<and> P rest)"
  by (simp add: split_version_def digits_dot_def)

lemma version_rule_test:
  assumes "digits1 major"
  shows "rx_test (version_rule a major pre) v \<longleftrightarrow>
         (\<exists>M minor patch rest. semver v M minor patch rest \<and> (argv_major a \<or> M = major) \<and>
            (truthy pre \<or> argv_prerelease a \<or> rest = []))"
proof -
  consider (ef) "\<not> argv_major a" "\<not> (truthy pre \<or> argv_prerelease a)"
    | (pf) "\<not> argv_major a" "truthy pre \<or> argv_prerelease a"
    | (ea) "argv_major a" "\<not> (truthy pre \<or> argv_prerelease a)"
    | (pa) "argv_major a" "truthy pre \<or> argv_prerelease a"
    by blast
  then show ?thesis
  proof cases
    case ef
    have r: "version_rule a major pre = Seq Bol (Seq (Lit major) (Seq (Lit ''.'')
               (Seq (Group 1 DigitPlus) (Seq (Lit ''.'') (Seq (Group 2 DigitPlus) Eol)))))"
      using ef by (simp add: version_rule_def majorSyntax_def truthy_def)
    have "rx_test (version_rule a major pre) v \<longleftrightarrow>
          (\<exists>minor patch rest. split_version v = Some (major, minor, patch, rest) \<and> rest = [])"
      unfolding r split_version_fixed[OF assms, symmetric]
      by (simp only: rx_test_Bol Lit_ne Group_digits_dot_ne Group_digits_Eol) simp
    then show ?thesis using ef by (auto simp: split_version_iff)
  next
    case pf
    have r: "version_rule a major pre = Seq Bol (Seq (Lit major) (Seq (Lit ''.'')
               (Seq (Group 1 DigitPlus) (Seq (Lit ''.'') (Seq (Group 2 DigitPlus)
                  (Seq (Opt (Lit ''-'')) (Opt (Group 3 tag_alt))))))))"
      using pf by (auto simp add: version_rule_def majorSyntax_def truthy_def)
    have "rx_test (version_rule a major pre) v \<longleftrightarrow>
          (\<exists>minor patch rest. split_version v = Some (major, minor, patch, rest) \<and> True)"
      unfolding r split_version_fixed[OF assms, symmetric]
      by (simp only: rx_test_Bol Lit_ne Group_digits_dot_ne Group_digits_tail) simp
    then show ?thesis using pf by (auto simp: split_version_iff)
  next
    case ea
    have r: "version_rule a major pre = Seq Bol (Seq (Group 1 DigitPlus) (Seq (Lit ''.'')
               (Seq (Group 2 DigitPlus) (Seq (Lit ''.'') (Seq (Group 3 DigitPlus) Eol)))))"
      using ea by (simp add: version_rule_def majorSyntax_def truthy_def)
    have "rx_test (version_rule a major pre) v \<longleftrightarrow>
          (\<exists>M minor patch rest. split_version v = Some (M, minor, patch, rest) \<and> rest = [])"
      unfolding r split_version_any[symmetric]
      by (simp only: rx_test_Bol Lit_ne Group_digits_dot_ne Group_digits_Eol, simp?)
    then show ?thesis using ea by (auto simp: split_version_iff)
  next
    case pa
    have r: "version_rule a major pre = Seq Bol (Seq (Group 1 DigitPlus) (Seq (Lit ''.'')
               (Seq (Group 2 DigitPlus) (Seq (Lit ''.'') (Seq (Group 3 DigitPlus)
                  (Seq (Opt (Lit ''-'')) (Opt (Group 4 tag_alt))))))))"
      using pa by (auto simp add: version_rule_def majorSyntax_def truthy_def)
    have "rx_test (version_rule a major pre) v \<longleftrightarrow>
          (\<exists>M minor patch rest. split_version v = Some (M, minor, patch, rest) \<and> True)"
      unfolding r split_version_any[symmetric]
      by (simp only: rx_test_Bol Lit_ne Group_digits_dot_ne Group_digits_tail, simp?)
    then show ?thesis using pa by (auto simp: split_version_iff)
  qed
qed

section \<open>What the version patterns accept\<close>

lemma tag_of_truthy: "truthy (tag_of rest) \<longleftrightarrow> tag_of rest \<noteq> None"
  by (auto simp: truthy_def tag_of_def tag_start_def split: option.splits)

lemma match_version_semver:
  "semver cur major minor patch rest \<Longrightarrow> match_version cur = Inr (Some major, tag_of rest)"
  by (simp add: match_version_split split_version_iff[symmetric])

lemma match_version_fails:
  "match_version cur = Inl TypeError \<longleftrightarrow>
     \<not> (\<exists>major minor patch rest. semver cur major minor patch rest)"
  by (auto simp: match_version_split split_version_iff[symmetric] split: option.splits)

text \<open>
  The captured major is a run of digits, so it stands for itself in the pattern built
  from it.
\<close>

lemma match_version_major_digits:
  "match_version cur = Inr (major, prerelease) \<Longrightarrow> \<exists>m. major = Some m \<and> digits1 m"
  by (auto simp: match_version_split split_version_iff semver_def split: option.splits)

lemma selectLatest_semver:
  assumes "semver cur major minor patch rest"
  shows "selectLatest a candidates (Some cur) =
         Inr (last_version (filter
           (\<lambda>v. \<exists>M mi pa r. semver v M mi pa r \<and> (argv_major a \<or> M = major) \<and>
                   (tag_of rest \<noteq> None \<or> argv_prerelease a \<or> r = []))
           candidates))"
proof -
  have d: "digits1 major" using assms by (simp add: semver_def)
  have "rx_test (version_rule a major (tag_of rest)) =
          (\<lambda>v. \<exists>M mi pa r. semver v M mi pa r \<and> (argv_major a \<or> M = major) \<and>
                   (tag_of rest \<noteq> None \<or> argv_prerelease a \<or> r = []))"
    by (rule ext) (simp only: version_rule_test[OF d] tag_of_truthy)
  then show ?thesis
    by (simp add: selectLatest_def match_version_semver[OF assms])
qed

section \<open>The version matcher: claims\<close>

text \<open>
  C1.  For an installed version that reads as \<^verbatim>\<open>major.minor.patch\<close> followed by no
  pre-release tag, and without \<^verbatim>\<open>--prerelease\<close>, \<open>selectLatest\<close> keeps the candidates
  that are exactly some \<^verbatim>\<open>M.minor.patch\<close>, with \<open>M\<close> the installed major unless
  \<^verbatim>\<open>--major\<close> is given (then any run of digits), in their given order, and returns the
  last of them.  From 1.2.3 and the candidates 1.2.2, 1.2.3, 1.2.4, 2.0.0 it returns
  1.2.4, and 2.0.0 under \<^verbatim>\<open>--major\<close>.
\<close>

theorem selectLatest_major_rule:
  "(\<forall>(a::argv_t) candidates cur major minor patch rest.
      semver cur major minor patch rest \<and> tag_of rest = None \<and> \<not> argv_prerelease a \<longrightarrow>
      selectLatest a candidates (Some cur) =
        Inr (last_version (filter
              (\<lambda>v. \<exists>M mi pa. semver v M mi pa [] \<and> (argv_major a \<or> M = major))
              candidates))) \<and>
   selectLatest no_flags [''1.2.2'', ''1.2.3'', ''1.2.4'', ''2.0.0''] (Some ''1.2.3'')
     = Inr (JSString ''1.2.4'') \<and>
   selectLatest (no_flags\<lparr>argv_major := True\<rparr>) [''1.2.2'', ''1.2.3'', ''1.2.4'', ''2.0.0'']
     (Some ''1.2.3'') = Inr (JSString ''2.0.0'')"
proof (intro conjI allI impI)
  fix a :: argv_t and candidates cur major minor patch rest
  assume h: "semver cur major minor patch rest \<and> tag_of rest = None \<and> \<not> argv_prerelease a"
  then have "(\<lambda>v. \<exists>M mi pa r. semver v M mi pa r \<and> (argv_major a \<or> M = major) \<and>
                   (tag_of rest \<noteq> None \<or> argv_prerelease a \<or> r = []))
           = (\<lambda>v. \<exists>M mi pa. semver v M mi pa [] \<and> (argv_major a \<or> M = major))"
    by auto
  then show "selectLatest a candidates (Some cur) =
        Inr (last_version (filter
              (\<lambda>v. \<exists>M mi pa. semver v M mi pa [] \<and> (argv_major a \<or> M = major))
              candidates))"
    using h selectLatest_semver[of cur major minor patch rest a candidates] by simp
next
  show "selectLatest no_flags [''1.2.2'', ''1.2.3'', ''1.2.4'', ''2.0.0''] (Some ''1.2.3'')
     = Inr (JSString ''1.2.4'')"
    by code_simp
next
  show "selectLatest (no_flags\<lparr>argv_major := True\<rparr>) [''1.2.2'', ''1.2.3'', ''1.2.4'', ''2.0.0'']
     (Some ''1.2.3'') = Inr (JSString ''2.0.0'')"
    by code_simp
qed

theorem selectLatest_major_rule_witness:
  "semver ''1.2.3'' ''1'' ''2'' ''3'' [] \<and> tag_of [] = None \<and> \<not> argv_prerelease no_flags \<and>
   selectLatest no_flags [''1.2.4'', ''2.0.0''] (Some ''1.2.3'') =
     Inr (last_version (filter
           (\<lambda>v. \<exists>M mi pa. semver v M mi pa [] \<and> (argv_major no_flags \<or> M = ''1''))
           [''1.2.4'', ''2.0.0'']))"
proof -
  have h: "semver ''1.2.3'' ''1'' ''2'' ''3'' [] \<and> tag_of [] = None \<and> \<not> argv_prerelease no_flags"
    by code_simp
  from selectLatest_major_rule[THEN conjunct1, rule_format, OF h]
  show ?thesis using h by simp
qed

text \<open>
  C2, as the code has it.  The claim lets only an \<^verbatim>\<open>alpha\<close>, \<^verbatim>\<open>beta\<close> or \<^verbatim>\<open>rc\<close> tag
  follow the patch number on the pre-release track.  The pattern built there has no
  \<^verbatim>\<open>$\<close>, so it accepts whatever follows the patch digits: here a candidate ending in
  \<^verbatim>\<open>-nightly\<close>, which carries none of the three tags, is selected.
\<close>

theorem selectLatest_other_suffix:
  "selectLatest no_flags [''1.2.4-beta'', ''1.2.5-nightly''] (Some ''1.2.3-beta'')
     = Inr (JSString ''1.2.5-nightly'') \<and> tag_of ''-nightly'' = None"
  by code_simp

text \<open>
  C2, amended.  When the installed version carries a pre-release tag (\<^verbatim>\<open>alpha\<close>,
  \<^verbatim>\<open>beta\<close> or \<^verbatim>\<open>rc\<close> right after the patch number, with or without a hyphen) or
  \<^verbatim>\<open>--prerelease\<close> is given, the rule accepts every candidate that begins with
  \<^verbatim>\<open>M.minor.patch\<close>, whatever follows the patch digits; otherwise it accepts exactly
  \<^verbatim>\<open>M.minor.patch\<close> and nothing after it.  \<open>M\<close> is as in C1.  From 1.2.3-beta without
  \<^verbatim>\<open>--prerelease\<close>, candidates with a pre-release suffix still qualify.
\<close>

theorem selectLatest_prerelease_rule:
  "(\<forall>(a::argv_t) candidates cur major minor patch rest.
      semver cur major minor patch rest \<and> (tag_of rest \<noteq> None \<or> argv_prerelease a) \<longrightarrow>
      selectLatest a candidates (Some cur) =
        Inr (last_version (filter
              (\<lambda>v. \<exists>M mi pa r. semver v M mi pa r \<and> (argv_major a \<or> M = major))
              candidates))) \<and>
   (\<forall>(a::argv_t) candidates cur major minor patch rest.
      semver cur major minor patch rest \<and> \<not> (tag_of rest \<noteq> None \<or> argv_prerelease a) \<longrightarrow>
      selectLatest a candidates (Some cur) =
        Inr (last_version (filter
              (\<lambda>v. \<exists>M mi pa. semver v M mi pa [] \<and> (argv_major a \<or> M = major))
              candidates))) \<and>
   tag_of ''-beta'' = Some ''beta'' \<and>
   selectLatest no_flags [''1.2.3-beta'', ''1.2.4-beta''] (Some ''1.2.3-beta'')
     = Inr (JSString ''1.2.4-beta'')"
proof (intro conjI allI impI)
  fix a :: argv_t and candidates cur major minor patch rest
  assume h: "semver cur major minor patch rest \<and> (tag_of rest \<noteq> None \<or> argv_prerelease a)"
  then have "(\<lambda>v. \<exists>M mi pa r. semver v M mi pa r \<and> (argv_major a \<or> M = major) \<and>
                   (tag_of rest \<noteq> None \<or> argv_prerelease a \<or> r = []))
           = (\<lambda>v. \<exists>M mi pa r. semver v M mi pa r \<and> (argv_major a \<or> M = major))"
    by auto
  then show "selectLatest a candidates (Some cur) =
        Inr (last_version (filter
              (\<lambda>v. \<exists>M mi pa r. semver v M mi pa r \<and> (argv_major a \<or> M = major))
              candidates))"
    using h selectLatest_semver[of cur major minor patch rest a candidates] by simp
next
  fix a :: argv_t and candidates cur major minor patch rest
  assume h: "semver cur major minor patch rest \<and> \<not> (tag_of rest \<noteq> None \<or> argv_prerelease a)"
  then have "(\<lambda>v. \<exists>M mi pa r. semver v M mi pa r \<and> (argv_major a \<or> M = major) \<and>
                   (tag_of rest \<noteq> None \<or> argv_prerelease a \<or> r = []))
           = (\<lambda>v. \<exists>M mi pa. semver v M mi pa [] \<and> (argv_major a \<or> M = major))"
    by auto
  then show "selectLatest a candidates (Some cur) =
        Inr (last_version (filter
              (\<lambda>v. \<exists>M mi pa. semver v M mi pa [] \<and> (argv_major a \<or> M = major))
              candidates))"
    using h selectLatest_semver[of cur major minor patch rest a candidates] by simp
next
  show "tag_of ''-beta'' = Some ''beta''"
    by code_simp
next
  show "selectLatest no_flags [''1.2.3-beta'', ''1.2.4-beta''] (Some ''1.2.3-beta'')
     = Inr (JSString ''1.2.4-beta'')"
    by code_simp
qed

theorem selectLatest_prerelease_rule_witness:
  "semver ''1.2.3-beta'' ''1'' ''2'' ''3'' ''-beta'' \<and>
   tag_of ''-beta'' = Some ''beta'' \<and>
   selectLatest no_flags [''1.2.4-beta.1'', ''2.0.0''] (Some ''1.2.3-beta'') =
     Inr (last_version (filter
           (\<lambda>v. \<exists>M mi pa r. semver v M mi pa r \<and> (argv_major no_flags \<or> M = ''1''))
           [''1.2.4-beta.1'', ''2.0.0'']))"
proof -
  have s: "semver ''1.2.3-beta'' ''1'' ''2'' ''3'' ''-beta''"
    by code_simp
  have t: "tag_of ''-beta'' = Some ''beta''"
    by code_simp
  from s t have h: "semver ''1.2.3-beta'' ''1'' ''2'' ''3'' ''-beta'' \<and>
           (tag_of ''-beta'' \<noteq> None \<or> argv_prerelease no_flags)"
    by simp
  from selectLatest_prerelease_rule[THEN conjunct1, rule_format, OF h]
  show ?thesis using s t by simp
qed

text \<open>
  C3.  With no installed version \<open>selectLatest\<close> returns the last candidate, whatever the
  flags and whatever the candidates are, and \<^verbatim>\<open>undefined\<close> when there is none.
\<close>

theorem selectLatest_not_installed:
  "selectLatest a candidates None =
     Inr (if candidates = [] then JSUndefined else JSString (last candidates))"
  by (simp add: selectLatest_def last_version_def)

theorem selectLatest_not_installed_witness:
  "selectLatest (no_flags\<lparr>argv_major := True\<rparr>) [''2.0.0'', ''1.0.0-nightly''] None =
     Inr (JSString ''1.0.0-nightly'') \<and>
   selectLatest no_flags [] None = Inr JSUndefined"
  using selectLatest_not_installed[of "no_flags\<lparr>argv_major := True\<rparr>" "[''2.0.0'', ''1.0.0-nightly'']"]
    selectLatest_not_installed[of no_flags "[]"]
  by simp

lemma select_from_no_match:
  "match_version cur = Inl TypeError \<Longrightarrow> select_from a versions (Some cur) = Inl TypeError"
  by (auto simp: select_from_def selectLatest_def split: option.splits json.splits)

text \<open>
  C10, as the code has it.  The claim lets \<open>getLatestVersion\<close> never return for an installed
  version that does not match \<^verbatim>\<open>versionRegex\<close>.  The match is at line 98, after the
  registry query: when the query fails the function has returned \<^verbatim>\<open>null\<close> at line 83,
  here for the installed version \<^verbatim>\<open>latest\<close>.
\<close>

theorem getLatestVersion_returns_before_match:
  "getLatestVersion offline_env ''quasar'' (Some ''latest'') = Inr JSNull \<and>
   match_version ''latest'' = Inl TypeError"
  by code_simp

text \<open>
  C10, amended.  Once the registry query has produced a payload that is not an error
  envelope, \<open>getLatestVersion\<close> throws for every installed version that is a string not
  beginning with \<^verbatim>\<open>digits.digits.digits\<close> (such as \<^verbatim>\<open>latest\<close> or the empty string): the
  match against \<^verbatim>\<open>versionRegex\<close> is \<^verbatim>\<open>null\<close> and cannot be destructured (for the payload
  \<^verbatim>\<open>null\<close> line 86 has thrown already).  On a list of versions \<open>selectLatest\<close> returns
  exactly when the installed version is absent or begins so.  When the query fails or
  answers with an error envelope the function returns \<^verbatim>\<open>null\<close> whatever the installed
  version.
\<close>

theorem getLatestVersion_needs_version:
  "(\<forall>(e::env) name out versions cur.
      execSync e (packager e @ '' info '' @ name @ '' versions --json'') = Some out \<and>
      JSON_parse e out = Some versions \<and>
      get_type versions \<noteq> Inr (Some (JStr ''error'')) \<and>
      \<not> (\<exists>major minor patch rest. semver cur major minor patch rest)
      \<longrightarrow> getLatestVersion e name (Some cur) = Inl TypeError) \<and>
   (\<forall>(a::argv_t) versions cur.
      (\<exists>v. selectLatest a versions (Some cur) = Inr v) \<longleftrightarrow>
      (\<exists>major minor patch rest. semver cur major minor patch rest)) \<and>
   (\<forall>(a::argv_t) versions. \<exists>v. selectLatest a versions None = Inr v) \<and>
   selectLatest no_flags [''1.0.0''] (Some ''latest'') = Inl TypeError \<and>
   selectLatest no_flags [''1.0.0''] (Some []) = Inl TypeError"
proof (intro conjI allI impI)
  fix e :: env and name out versions cur
  assume h: "execSync e (packager e @ '' info '' @ name @ '' versions --json'') = Some out \<and>
      JSON_parse e out = Some versions \<and>
      get_type versions \<noteq> Inr (Some (JStr ''error'')) \<and>
      \<not> (\<exists>major minor patch rest. semver cur major minor patch rest)"
  then have m: "match_version cur = Inl TypeError" by (simp add: match_version_fails)
  show "getLatestVersion e name (Some cur) = Inl TypeError"
  proof (cases "get_type versions")
    case (Inl err)
    then show ?thesis using h by (cases err) (simp add: getLatestVersion_def)
  next
    case (Inr t)
    then show ?thesis using h select_from_no_match[OF m]
      by (simp add: getLatestVersion_def)
  qed
next
  fix a :: argv_t and versions cur
  show "(\<exists>v. selectLatest a versions (Some cur) = Inr v) \<longleftrightarrow>
      (\<exists>major minor patch rest. semver cur major minor patch rest)"
  proof
    assume "\<exists>v. selectLatest a versions (Some cur) = Inr v"
    then have "match_version cur \<noteq> Inl TypeError"
      by (auto simp: selectLatest_def)
    then show "\<exists>major minor patch rest. semver cur major minor patch rest"
      by (simp add: match_version_fails)
  next
    assume "\<exists>major minor patch rest. semver cur major minor patch rest"
    then show "\<exists>v. selectLatest a versions (Some cur) = Inr v"
      using selectLatest_semver by blast
  qed
next
  fix a :: argv_t and versions
  show "\<exists>v. selectLatest a versions None = Inr v"
    by (simp add: selectLatest_def)
next
  show "selectLatest no_flags [''1.0.0''] (Some ''latest'') = Inl TypeError"
    by code_simp
next
  show "selectLatest no_flags [''1.0.0''] (Some []) = Inl TypeError"
    by code_simp
qed

theorem getLatestVersion_needs_version_witness:
  \<open>execSync sample_env (packager sample_env @ '' info '' @ ''quasar'' @ '' versions --json'')
     = Some ''["2.0.0","2.0.1"]'' \<and>
   JSON_parse sample_env ''["2.0.0","2.0.1"]'' = Some (JArr [''2.0.0'', ''2.0.1'']) \<and>
   match_version ''latest'' = Inl TypeError \<and>
   getLatestVersion sample_env ''quasar'' (Some ''latest'') = Inl TypeError\<close>
proof -
  have 1: \<open>execSync sample_env (packager sample_env @ '' info '' @ ''quasar'' @ '' versions --json'')
     = Some ''["2.0.0","2.0.1"]''\<close>
    by (simp add: sample_env_def sample_execSync_def)
  have 2: \<open>JSON_parse sample_env ''["2.0.0","2.0.1"]'' = Some (JArr [''2.0.0'', ''2.0.1''])\<close>
    by (simp add: sample_env_def sample_parse_def)
  have 3: "get_type (JArr [''2.0.0'', ''2.0.1'']) \<noteq> Inr (Some (JStr ''error''))"
    by (simp add: get_type_def)
  have m: "match_version ''latest'' = Inl TypeError"
    by code_simp
  then have 4: "\<not> (\<exists>major minor patch rest. semver ''latest'' major minor patch rest)"
    by (simp add: match_version_fails)
  from getLatestVersion_needs_version[THEN conjunct1, rule_format, OF conjI[OF 1 conjI[OF 2 conjI[OF 3 4]]]]
  show ?thesis using 1 2 m by simp
qed

section \<open>The registry query: claims\<close>

text \<open>
  C4.  \<open>getLatestVersion\<close> returns \<^verbatim>\<open>null\<close>, and does not throw, when the package-manager
  invocation fails, when its output does not parse as JSON, and when the parsed payload
  is an object whose \<^verbatim>\<open>type\<close> field is \<^verbatim>\<open>'error'\<close>, whatever the installed version is.
\<close>

theorem getLatestVersion_unavailable:
  "(execSync e (packager e @ '' info '' @ name @ '' versions --json'') = None
      \<longrightarrow> getLatestVersion e name curVersion = Inr JSNull) \<and>
   (execSync e (packager e @ '' info '' @ name @ '' versions --json'') = Some out \<and>
    JSON_parse e out = None
      \<longrightarrow> getLatestVersion e name curVersion = Inr JSNull) \<and>
   (execSync e (packager e @ '' info '' @ name @ '' versions --json'') = Some out \<and>
    JSON_parse e out = Some (JObj (Some (JStr ''error'')) d)
      \<longrightarrow> getLatestVersion e name curVersion = Inr JSNull)"
  by (simp add: getLatestVersion_def get_type_def)

theorem getLatestVersion_unavailable_witness:
  "execSync offline_env (packager offline_env @ '' info '' @ ''quasar'' @ '' versions --json'')
     = None \<and>
   getLatestVersion offline_env ''quasar'' (Some ''2.0.0'') = Inr JSNull"
proof -
  have h: "execSync offline_env
             (packager offline_env @ '' info '' @ ''quasar'' @ '' versions --json'') = None"
    by (simp add: offline_env_def no_answer_def)
  from getLatestVersion_unavailable[THEN conjunct1, rule_format, OF h] h
  show ?thesis by simp
qed

section \<open>The scan\<close>

lemma emit_simps [simp]:
  "events (emit evs st) = events st @ evs"
  "deps (emit evs st) = deps st"
  "updateAvailable (emit evs st) = updateAvailable st"
  "removeDeprecatedAppPkg (emit evs st) = removeDeprecatedAppPkg st"
  by (simp_all add: emit_def)

lemma is_effect_simps [simp]:
  "is_effect (ConsoleLog l) = False"
  "is_effect (Log l) = False"
  "is_effect (RemoveSync p) = True"
  "is_effect (Spawn pm params r) = True"
  by (simp_all add: is_effect_def)

lemma classify_cases:
  assumes "classify e ty name cur st = Inr st'"
  shows "\<exists>latest. getLatestVersion e name cur = Inr latest \<and>
       deps st' = (deps st) (ty := deps st ty @
         (if latest \<noteq> JSNull \<and> cur_value cur \<noteq> latest
          then [\<lparr>packageName = name, latestVersion = latest\<rparr>] else [])) \<and>
       updateAvailable st' = (updateAvailable st \<or> (latest \<noteq> JSNull \<and> cur_value cur \<noteq> latest)) \<and>
       removeDeprecatedAppPkg st' = removeDeprecatedAppPkg st \<and>
       filter is_effect (events st') = filter is_effect (events st)"
proof (cases "getLatestVersion e name cur")
  case (Inl err)
  then show ?thesis using assms by (simp add: classify_def)
next
  case (Inr latest)
  consider (null) "latest = JSNull"
    | (differs) "latest \<noteq> JSNull" "cur_value cur \<noteq> latest"
    | (same) "latest \<noteq> JSNull" "cur_value cur = latest"
    by blast
  then show ?thesis
  proof cases
    case null
    then show ?thesis using assms Inr by (auto simp add: classify_def Let_def)
  next
    case differs
    then show ?thesis using assms Inr by (auto simp add: classify_def Let_def)
  next
    case same
    then show ?thesis using assms Inr by (auto simp add: classify_def Let_def)
  qed
qed


lemma classify_inv:
  assumes "scan_inv st" "classify e ty name cur st = Inr st'"
  shows "scan_inv st'"
  using assms(1) classify_cases[OF assms(2)]
  by (cases ty) (auto simp: scan_inv_def)

lemma scan_package_inv:
  assumes "scan_inv st" "scan_package e ty name st = Inr st'"
  shows "scan_inv st'"
proof -
  have f: "scan_inv (st\<lparr>removeDeprecatedAppPkg := True\<rparr>)"
    using assms(1) by (simp add: scan_inv_def)
  show ?thesis
    using assms classify_inv[OF f] classify_inv[OF assms(1)]
    by (auto simp: scan_package_def Let_def split: if_splits)
qed

lemma scan_packages_inv:
  "scan_inv st \<Longrightarrow> scan_packages e ty names st = Inr st' \<Longrightarrow> scan_inv st'"
proof (induction names arbitrary: st)
  case Nil
  then show ?case by simp
next
  case (Cons name names)
  then show ?case
    by (auto split: sum.splits dest: scan_package_inv)
qed

lemma init_state_inv: "scan_inv (init_state e)"
  by (simp add: scan_inv_def init_state_def)

lemma scan_keeps_inv: "scan e = Inr st \<Longrightarrow> scan_inv st"
  using init_state_inv[of e]
  by (auto simp: scan_def split: sum.splits dest: scan_packages_inv)

lemma classify_flag:
  "removeDeprecatedAppPkg (final_state (classify e ty name cur st)) = removeDeprecatedAppPkg st"
proof (cases "classify e ty name cur st")
  case (Inl x)
  then show ?thesis
    by (cases "getLatestVersion e name cur")
       (auto simp: classify_def final_state_def Let_def split: if_splits)
next
  case (Inr st')
  then show ?thesis using classify_cases[OF Inr] by (auto simp: final_state_def)
qed

lemma classify_throws:
  "getLatestVersion e name cur = Inl err \<Longrightarrow> classify e ty name cur st = Inl (err, st)"
  by (simp add: classify_def)

lemma classify_returns:
  "getLatestVersion e name cur = Inr latest \<Longrightarrow> \<exists>st'. classify e ty name cur st = Inr st'"
  by (simp add: classify_def Let_def)

lemma classify_missing:
  "getLatestVersion e name None = Inr (JSString v) \<Longrightarrow>
   classify e ty name None st =
     Inr (emit [ConsoleLog ('' '' @ green e name @ '': '' @ red e ''Missing!'' @ '' '' @ arrow
                            @ '' '' @ v)]
            (st\<lparr>deps := (deps st)(ty := deps st ty @ [\<lparr>packageName = name, latestVersion = JSString v\<rparr>]),
               updateAvailable := True\<rparr>))"
  by (simp add: classify_def Let_def cur_value_def to_text_def)

text \<open>
  What a turn of the scan does to the plan.  On a Quasar package it appends an entry to
  the plan of its group exactly when \<open>getLatestVersion\<close> returned something other than
  \<^verbatim>\<open>null\<close> that differs from the installed version, \<^verbatim>\<open>undefined\<close> included; the entry
  carries the name the registry was asked for and what it returned.  Nothing is appended
  when \<open>getLatestVersion\<close> throws, nor for a package that is not a Quasar package.  A
  package that is not installed is compared as \<^verbatim>\<open>null\<close>: it is reported as
  \<^verbatim>\<open>Missing!\<close> and enters the plan with the version found.
\<close>

lemma scan_package_plan:
  "(\<forall>(e::env) ty name (st::state) cur asked latest.
      isQuasarPackage name \<and> cur = getPackageJson e name \<and>
      asked = (if isDeprecatedApp name cur then ''@quasar/app-webpack'' else name) \<and>
      getLatestVersion e asked cur = Inr latest \<longrightarrow>
      (\<exists>st'. scan_package e ty name st = Inr st' \<and>
         deps st' = (deps st)(ty := deps st ty @
            (if latest \<noteq> JSNull \<and> cur_value cur \<noteq> latest
             then [\<lparr>packageName = asked, latestVersion = latest\<rparr>] else [])))) \<and>
   (\<forall>(e::env) ty name (st::state) cur asked err.
      isQuasarPackage name \<and> cur = getPackageJson e name \<and>
      asked = (if isDeprecatedApp name cur then ''@quasar/app-webpack'' else name) \<and>
      getLatestVersion e asked cur = Inl err \<longrightarrow>
      (\<exists>st'. scan_package e ty name st = Inl (err, st') \<and> deps st' = deps st)) \<and>
   (\<forall>(e::env) ty name (st::state). \<not> isQuasarPackage name \<longrightarrow> scan_package e ty name st = Inr st) \<and>
   (\<forall>(e::env) ty name (st::state) v.
      isQuasarPackage name \<and> getPackageJson e name = None \<and>
      getLatestVersion e name None = Inr (JSString v) \<longrightarrow>
      scan_package e ty name st =
        Inr (emit [ConsoleLog ('' '' @ green e name @ '': '' @ red e ''Missing!'' @ '' '' @ arrow
                               @ '' '' @ v)]
               (st\<lparr>deps := (deps st)(ty := deps st ty @
                               [\<lparr>packageName = name, latestVersion = JSString v\<rparr>]),
                  updateAvailable := True\<rparr>)))"
proof (intro conjI allI impI)
  fix e :: env and st :: state and ty name cur asked latest
  assume h: "isQuasarPackage name \<and> cur = getPackageJson e name \<and>
      asked = (if isDeprecatedApp name cur then ''@quasar/app-webpack'' else name) \<and>
      getLatestVersion e asked cur = Inr latest"
  define st0 where "st0 = (if isDeprecatedApp name cur then st\<lparr>removeDeprecatedAppPkg := True\<rparr> else st)"
  have sp: "scan_package e ty name st = classify e ty asked cur st0"
    using h by (simp add: scan_package_def st0_def Let_def)
  from h classify_returns obtain st' where c: "classify e ty asked cur st0 = Inr st'" by blast
  from classify_cases[OF c] h have
    "deps st' = (deps st0)(ty := deps st0 ty @
            (if latest \<noteq> JSNull \<and> cur_value cur \<noteq> latest
             then [\<lparr>packageName = asked, latestVersion = latest\<rparr>] else []))"
    by auto
  moreover have "deps st0 = deps st" by (simp add: st0_def)
  ultimately show "\<exists>st'. scan_package e ty name st = Inr st' \<and>
         deps st' = (deps st)(ty := deps st ty @
            (if latest \<noteq> JSNull \<and> cur_value cur \<noteq> latest
             then [\<lparr>packageName = asked, latestVersion = latest\<rparr>] else []))"
    using sp c by simp
next
  fix e :: env and st :: state and ty name cur asked err
  assume h: "isQuasarPackage name \<and> cur = getPackageJson e name \<and>
      asked = (if isDeprecatedApp name cur then ''@quasar/app-webpack'' else name) \<and>
      getLatestVersion e asked cur = Inl err"
  define st0 where "st0 = (if isDeprecatedApp name cur then st\<lparr>removeDeprecatedAppPkg := True\<rparr> else st)"
  have sp: "scan_package e ty name st = classify e ty asked cur st0"
    using h by (simp add: scan_package_def st0_def Let_def)
  have "classify e ty asked cur st0 = Inl (err, st0)" using h classify_throws by blast
  moreover have "deps st0 = deps st" by (simp add: st0_def)
  ultimately show "\<exists>st'. scan_package e ty name st = Inl (err, st') \<and> deps st' = deps st"
    using sp by simp
next
  fix e :: env and st :: state and ty name
  assume "\<not> isQuasarPackage name"
  then show "scan_package e ty name st = Inr st" by (simp add: scan_package_def)
next
  fix e :: env and st :: state and ty name v
  assume h: "isQuasarPackage name \<and> getPackageJson e name = None \<and>
      getLatestVersion e name None = Inr (JSString v)"
  then have "scan_package e ty name st = classify e ty name None st"
    by (simp add: scan_package_def isDeprecatedApp_def)
  then show "scan_package e ty name st =
        Inr (emit [ConsoleLog ('' '' @ green e name @ '': '' @ red e ''Missing!'' @ '' '' @ arrow
                               @ '' '' @ v)]
               (st\<lparr>deps := (deps st)(ty := deps st ty @
                               [\<lparr>packageName = name, latestVersion = JSString v\<rparr>]),
                  updateAvailable := True\<rparr>))"
    using h classify_missing by simp
qed

text \<open>
  C5.  An entry is to enter the plan only when a latest version was determined and
  differs from the installed one.  Line 151 tests what \<open>getLatestVersion\<close> returned
  against \<^verbatim>\<open>null\<close> only.  When the registry answers but none of its versions matches the
  rule, line 108 returns \<^verbatim>\<open>undefined\<close>: it passes that test, differs from every
  installed version, and is planned.  With \<^verbatim>\<open>quasar\<close> 5.0.0 installed and a registry that
  lists 2.0.0 and 2.0.1, the scan plans the entry of \<^verbatim>\<open>quasar\<close> with \<^verbatim>\<open>undefined\<close> for its
  version, and the installing run asks the package manager for \<^verbatim>\<open>quasar@^undefined\<close>.
\<close>

theorem plan_entry_undefined:
  "getPackageJson stale_env ''quasar'' = Some ''5.0.0'' \<and>
   getLatestVersion stale_env ''quasar'' (Some ''5.0.0'') = Inr JSUndefined \<and>
   deps (final_state (scan stale_env)) Dependencies =
     [\<lparr>packageName = ''quasar'', latestVersion = JSUndefined\<rparr>] \<and>
   filter is_effect (events (final_state (upgradeQuasar stale_env))) =
     [RemoveSync [''/project'', ''node_modules'', ''quasar''],
      Spawn ''npm'' [''install'', ''--save'', ''quasar@^undefined''] ''/project'']"
proof (intro conjI)
  show "getPackageJson stale_env ''quasar'' = Some ''5.0.0''"
    by code_simp
  show "getLatestVersion stale_env ''quasar'' (Some ''5.0.0'') = Inr JSUndefined"
    by code_simp
  show "deps (final_state (scan stale_env)) Dependencies =
     [\<lparr>packageName = ''quasar'', latestVersion = JSUndefined\<rparr>]"
    by code_simp
  show "filter is_effect (events (final_state (upgradeQuasar stale_env))) =
     [RemoveSync [''/project'', ''node_modules'', ''quasar''],
      Spawn ''npm'' [''install'', ''--save'', ''quasar@^undefined''] ''/project'']"
    by code_simp
qed

text \<open>
  C6.  When the scan of both groups ends with an empty plan, the run prints the line
  holding \<^verbatim>\<open>Congrats! All Quasar packages are up to date.\<close> and returns; from start to
  end it has neither run the package manager to install or uninstall nor deleted
  anything.
\<close>

theorem up_to_date_report:
  "scan e = Inr st \<and> deps st Dependencies = [] \<and> deps st DevDependencies = [] \<longrightarrow>
     upgradeQuasar e =
       Inr (emit [ConsoleLog (''  '' @ ''Congrats! All Quasar packages are up to date.''
                              @ [CHR 0x0A])] st) \<and>
     filter is_effect (events (final_state (upgradeQuasar e))) = []"
proof
  assume h: "scan e = Inr st \<and> deps st Dependencies = [] \<and> deps st DevDependencies = []"
  then have inv: "scan_inv st" using scan_keeps_inv by blast
  then have u: "\<not> updateAvailable st" using h by (simp add: scan_inv_def)
  have "upgradeQuasar e =
       Inr (emit [ConsoleLog (''  '' @ ''Congrats! All Quasar packages are up to date.''
                              @ [CHR 0x0A])] st)"
    using h u by (simp add: upgradeQuasar_def finish_def)
  then show "upgradeQuasar e =
       Inr (emit [ConsoleLog (''  '' @ ''Congrats! All Quasar packages are up to date.''
                              @ [CHR 0x0A])] st) \<and>
     filter is_effect (events (final_state (upgradeQuasar e))) = []"
    using inv by (simp add: final_state_def scan_inv_def)
qed

lemma Inr_final_state: "\<not> isl r \<Longrightarrow> r = Inr (final_state r)"
  by (cases r) (auto simp: final_state_def)

theorem up_to_date_report_witness:
  "scan settled_env = Inr (final_state (scan settled_env)) \<and>
   deps (final_state (scan settled_env)) Dependencies = [] \<and>
   deps (final_state (scan settled_env)) DevDependencies = [] \<and>
   events (final_state (upgradeQuasar settled_env)) =
     [ConsoleLog [], Log ''Gathering information with npm...'', ConsoleLog [],
      ConsoleLog (''  Congrats! All Quasar packages are up to date.'' @ [CHR 0x0A])] \<and>
   filter is_effect (events (final_state (upgradeQuasar settled_env))) = []"
proof -
  have "\<not> isl (scan settled_env)" by code_simp
  then have s: "scan settled_env = Inr (final_state (scan settled_env))"
    by (rule Inr_final_state)
  have d: "deps (final_state (scan settled_env)) Dependencies = []"
    "deps (final_state (scan settled_env)) DevDependencies = []"
    by code_simp+
  have ev: "events (final_state (upgradeQuasar settled_env)) =
     [ConsoleLog [], Log ''Gathering information with npm...'', ConsoleLog [],
      ConsoleLog (''  Congrats! All Quasar packages are up to date.'' @ [CHR 0x0A])]"
    by code_simp
  from up_to_date_report[of settled_env "final_state (scan settled_env)"] s d
  have "filter is_effect (events (final_state (upgradeQuasar settled_env))) = []"
    by blast
  then show ?thesis using s d ev by blast
qed

section \<open>The installation\<close>

lemma rx_test_pinnedRegex: "rx_test pinnedRegex s = (case s of [] \<Rightarrow> False | x # _ \<Rightarrow> is_digit x)"
  by (cases s) (simp_all add: pinnedRegex_def rx_test_Bol)

lemma forEach_dep_returns:
  "forEach_dep e ds params st = Inr (params', st') \<Longrightarrow>
     params' = params @
       map (\<lambda>d. packageName d @ ''@''
                  @ (case manifest_entry (pkg e) (packageName d) of
                       Inr (x # _) \<Rightarrow> if is_digit x then [] else ''^''
                     | _ \<Rightarrow> ''^'')
                  @ to_text (latestVersion d)) ds \<and>
     events st' = events st @ map (\<lambda>d. RemoveSync [root e, ''node_modules'', packageName d]) ds \<and>
     deps st' = deps st"
proof (induction ds arbitrary: params st)
  case Nil
  then show ?case by simp
next
  case (Cons d ds)
  from Cons.prems obtain entry where en: "manifest_entry (pkg e) (packageName d) = Inr entry"
    by (cases "manifest_entry (pkg e) (packageName d)") (auto simp: Let_def)
  let ?st1 = "emit [RemoveSync [root e, ''node_modules'', packageName d]] st"
  let ?arg = "packageName d @ ''@'' @ (if rx_test pinnedRegex entry then [] else ''^'')
                             @ to_text (latestVersion d)"
  have a: "(if rx_test pinnedRegex entry then [] else ''^'') =
           (case manifest_entry (pkg e) (packageName d) of
              Inr (x # _) \<Rightarrow> if is_digit x then [] else ''^''
            | _ \<Rightarrow> ''^'')"
    by (cases entry) (simp_all add: en rx_test_pinnedRegex)
  have "forEach_dep e ds (params @ [?arg]) ?st1 = Inr (params', st')"
    using Cons.prems en by (simp add: Let_def)
  from Cons.IH[OF this] show ?case
    unfolding a by simp
qed

lemma forEach_dep_throws:
  "forEach_dep e ds params st = Inl (err, st') \<Longrightarrow>
     \<exists>k. events st' = events st @
            map (\<lambda>d. RemoveSync [root e, ''node_modules'', packageName d]) (take k ds)"
proof (induction ds arbitrary: params st)
  case Nil
  then show ?case by simp
next
  case (Cons d ds)
  let ?st1 = "emit [RemoveSync [root e, ''node_modules'', packageName d]] st"
  show ?case
  proof (cases "manifest_entry (pkg e) (packageName d)")
    case (Inl err')
    then have "st' = ?st1" using Cons.prems by (simp add: Let_def)
    then have "events st' = events st @
            map (\<lambda>d. RemoveSync [root e, ''node_modules'', packageName d]) (take 1 (d # ds))"
      by simp
    then show ?thesis by blast
  next
    case (Inr entry)
    let ?arg = "packageName d @ ''@'' @ (if rx_test pinnedRegex entry then [] else ''^'')
                             @ to_text (latestVersion d)"
    have "forEach_dep e ds (params @ [?arg]) ?st1 = Inl (err, st')"
      using Cons.prems Inr by (simp add: Let_def)
    from Cons.IH[OF this] obtain k where
      "events st' = events ?st1 @ map (\<lambda>d. RemoveSync [root e, ''node_modules'', packageName d]) (take k ds)"
      by blast
    then have "events st' = events st @
            map (\<lambda>d. RemoveSync [root e, ''node_modules'', packageName d]) (take (Suc k) (d # ds))"
      by simp
    then show ?thesis by blast
  qed
qed

lemma install_group_extends:
  "\<exists>more. events (final_state (install_group e ty st)) = events st @ more"
proof (cases "deps st ty = []")
  case True
  then show ?thesis by (simp add: install_group_def final_state_def)
next
  case False
  show ?thesis
  proof (cases "forEach_dep e (deps st ty) (install_params (packager e) ty) st")
    case (Inl x)
    obtain err st' where x: "x = (err, st')" by (cases x)
    from forEach_dep_throws[OF Inl[unfolded x]] show ?thesis
      using False Inl x by (auto simp: install_group_def final_state_def)
  next
    case (Inr y)
    obtain params' st' where y: "y = (params', st')" by (cases y)
    from forEach_dep_returns[OF Inr[unfolded y]] show ?thesis
      using False Inr y by (auto simp: install_group_def final_state_def)
  qed
qed

lemma isDeprecatedApp_major3:
  "semver v ''3'' minor patch rest \<Longrightarrow> isDeprecatedApp ''@quasar/app'' (Some v)"
  by (simp add: isDeprecatedApp_def semver_def)

lemma scan_package_flag:
  assumes "removeDeprecatedAppPkg st" "scan_package e ty name st = Inr st'"
  shows "removeDeprecatedAppPkg st'"
proof -
  have "removeDeprecatedAppPkg (final_state (scan_package e ty name st))"
    using assms(1) classify_flag[of e ty _ _ st]
      classify_flag[of e ty _ _ "st\<lparr>removeDeprecatedAppPkg := True\<rparr>"]
    by (simp add: scan_package_def Let_def final_state_def)
  then show ?thesis using assms(2) by (simp add: final_state_def)
qed

lemma scan_packages_flag:
  "removeDeprecatedAppPkg st \<Longrightarrow> scan_packages e ty names st = Inr st' \<Longrightarrow>
     removeDeprecatedAppPkg st'"
proof (induction names arbitrary: st)
  case Nil
  then show ?case by simp
next
  case (Cons name names)
  then show ?case by (auto split: sum.splits dest: scan_package_flag)
qed

lemma scan_package_app:
  assumes "getPackageJson e ''@quasar/app'' = Some v" "semver v ''3'' minor patch rest"
  shows "scan_package e ty ''@quasar/app'' st =
          classify e ty ''@quasar/app-webpack'' (Some v) (st\<lparr>removeDeprecatedAppPkg := True\<rparr>)"
  using assms isDeprecatedApp_major3[OF assms(2)]
  by (simp add: scan_package_def isQuasarPackage_def)

lemma scan_packages_sets_flag:
  assumes "getPackageJson e ''@quasar/app'' = Some v" "semver v ''3'' minor patch rest"
  shows "''@quasar/app'' \<in> set names \<Longrightarrow> scan_packages e ty names st = Inr st' \<Longrightarrow>
           removeDeprecatedAppPkg st'"
proof (induction names arbitrary: st)
  case Nil
  then show ?case by simp
next
  case (Cons name names)
  from Cons.prems(2) obtain st1 where 1: "scan_package e ty name st = Inr st1"
    and 2: "scan_packages e ty names st1 = Inr st'"
    by (auto split: sum.splits)
  show ?case
  proof (cases "name = ''@quasar/app''")
    case True
    have "removeDeprecatedAppPkg (final_state (scan_package e ty name st))"
      unfolding True scan_package_app[OF assms] classify_flag by simp
    then have "removeDeprecatedAppPkg st1" using 1 by (simp add: final_state_def)
    then show ?thesis using 2 scan_packages_flag by blast
  next
    case False
    then have "''@quasar/app'' \<in> set names" using Cons.prems(1) by simp
    then show ?thesis using Cons.IH 2 by blast
  qed
qed

lemma finish_install_events:
  assumes "updateAvailable st" "argv_install (argv e)"
  shows "\<exists>more. events (final_state (finish e st)) = events (remove_deprecated e st) @ more"
proof -
  let ?st0 = "remove_deprecated e st"
  obtain m1 where m1: "events (final_state (install_group e Dependencies ?st0)) = events ?st0 @ m1"
    using install_group_extends by blast
  show ?thesis
  proof (cases "install_group e Dependencies ?st0")
    case (Inl x)
    then show ?thesis using assms m1
      by (cases x) (auto simp: finish_def final_state_def)
  next
    case (Inr st1)
    obtain m2 where m2: "events (final_state (install_group e DevDependencies st1)) = events st1 @ m2"
      using install_group_extends by blast
    show ?thesis
    proof (cases "install_group e DevDependencies st1")
      case (Inl x)
      then show ?thesis using assms m1 m2 Inr
        by (cases x) (auto simp: finish_def final_state_def)
    next
      case (Inr st2)
      then show ?thesis using assms m1 m2 \<open>install_group e Dependencies ?st0 = Inr st1\<close>
        by (auto simp: finish_def final_state_def)
    qed
  qed
qed

text \<open>
  C7.  A turn of the scan on \<^verbatim>\<open>@quasar/app\<close> whose installed version has the major
  component 3 goes on as a turn on \<^verbatim>\<open>@quasar/app-webpack\<close> (the registry is asked for
  that name and a plan entry carries it) with the flag \<^verbatim>\<open>removeDeprecatedAppPkg\<close> set,
  and the flag is still set when the scan returns.  A run that installs with the flag set
  first deletes \<^verbatim>\<open>node_modules/@quasar/app\<close> and runs the package manager's removal of
  \<^verbatim>\<open>@quasar/app\<close>: nothing has touched the project before these two, so they precede
  every install.
\<close>

theorem deprecated_app_rename:
  "(\<forall>(e::env) ty (st::state) v minor patch rest.
      getPackageJson e ''@quasar/app'' = Some v \<and> semver v ''3'' minor patch rest \<longrightarrow>
      scan_package e ty ''@quasar/app'' st =
        classify e ty ''@quasar/app-webpack'' (Some v) (st\<lparr>removeDeprecatedAppPkg := True\<rparr>) \<and>
      removeDeprecatedAppPkg (final_state (scan_package e ty ''@quasar/app'' st))) \<and>
   (\<forall>(e::env) (st::state) v minor patch rest.
      getPackageJson e ''@quasar/app'' = Some v \<and> semver v ''3'' minor patch rest \<and>
      ''@quasar/app'' \<in> set (group_keys (pkg e) Dependencies @ group_keys (pkg e) DevDependencies) \<and>
      scan e = Inr st \<longrightarrow> removeDeprecatedAppPkg st) \<and>
   (\<forall>(e::env) (st::state).
      scan e = Inr st \<and> removeDeprecatedAppPkg st \<and> updateAvailable st \<and>
      argv_install (argv e) \<longrightarrow>
      filter is_effect (events st) = [] \<and>
      (\<exists>more. events (final_state (upgradeQuasar e)) =
         events st @
         [RemoveSync [root e, ''node_modules/@quasar/app''],
          ConsoleLog [],
          Spawn (packager e)
            (if packager e = ''yarn'' then [''remove'', ''@quasar/app'']
             else [''uninstall'', ''--save--dev'', ''@quasar/app''])
            (root e)] @ more))"
proof (intro conjI allI impI)
  fix e :: env and st :: state and ty v minor patch rest
  assume h: "getPackageJson e ''@quasar/app'' = Some v \<and> semver v ''3'' minor patch rest"
  then show "scan_package e ty ''@quasar/app'' st =
        classify e ty ''@quasar/app-webpack'' (Some v) (st\<lparr>removeDeprecatedAppPkg := True\<rparr>)"
    using scan_package_app by blast
  then show "removeDeprecatedAppPkg (final_state (scan_package e ty ''@quasar/app'' st))"
    by (simp add: classify_flag)
next
  fix e :: env and st :: state and v minor patch rest
  assume h: "getPackageJson e ''@quasar/app'' = Some v \<and> semver v ''3'' minor patch rest \<and>
      ''@quasar/app'' \<in> set (group_keys (pkg e) Dependencies @ group_keys (pkg e) DevDependencies) \<and>
      scan e = Inr st"
  then obtain st1 where 1: "scan_packages e Dependencies (group_keys (pkg e) Dependencies) (init_state e) = Inr st1"
    and 2: "scan_packages e DevDependencies (group_keys (pkg e) DevDependencies) st1 = Inr st"
    by (auto simp: scan_def split: sum.splits)
  from h have g: "getPackageJson e ''@quasar/app'' = Some v" and s: "semver v ''3'' minor patch rest"
    by simp_all
  from h consider "''@quasar/app'' \<in> set (group_keys (pkg e) Dependencies)"
    | "''@quasar/app'' \<in> set (group_keys (pkg e) DevDependencies)"
    by auto
  then show "removeDeprecatedAppPkg st"
  proof cases
    case 1
    then have "removeDeprecatedAppPkg st1"
      using scan_packages_sets_flag[OF g s] \<open>scan_packages e Dependencies (group_keys (pkg e) Dependencies) (init_state e) = Inr st1\<close>
      by blast
    then show ?thesis using 2 scan_packages_flag by blast
  next
    case 2
    then show ?thesis
      using scan_packages_sets_flag[OF g s] \<open>scan_packages e DevDependencies (group_keys (pkg e) DevDependencies) st1 = Inr st\<close>
      by blast
  qed
next
  fix e :: env and st :: state
  assume h: "scan e = Inr st \<and> removeDeprecatedAppPkg st \<and> updateAvailable st \<and>
      argv_install (argv e)"
  then show "filter is_effect (events st) = []"
    using scan_keeps_inv by (auto simp: scan_inv_def)
  from h finish_install_events obtain more where
    "events (final_state (finish e st)) = events (remove_deprecated e st) @ more"
    by blast
  moreover have "upgradeQuasar e = finish e st" using h by (simp add: upgradeQuasar_def)
  ultimately show "\<exists>more. events (final_state (upgradeQuasar e)) =
         events st @
         [RemoveSync [root e, ''node_modules/@quasar/app''],
          ConsoleLog [],
          Spawn (packager e)
            (if packager e = ''yarn'' then [''remove'', ''@quasar/app'']
             else [''uninstall'', ''--save--dev'', ''@quasar/app''])
            (root e)] @ more"
    using h by (simp add: remove_deprecated_def)
qed

theorem deprecated_app_rename_witness:
  "getPackageJson sample_env ''@quasar/app'' = Some ''3.0.0'' \<and>
   semver ''3.0.0'' ''3'' ''0'' ''0'' [] \<and>
   scan sample_env = Inr (final_state (scan sample_env)) \<and>
   removeDeprecatedAppPkg (final_state (scan sample_env)) \<and>
   deps (final_state (scan sample_env)) DevDependencies =
     [\<lparr>packageName = ''@quasar/app-webpack'', latestVersion = JSString ''3.1.0''\<rparr>,
      \<lparr>packageName = ''@quasar/extras'', latestVersion = JSString ''1.1.0''\<rparr>] \<and>
   filter is_effect (events (final_state (upgradeQuasar sample_env))) =
     [RemoveSync [''/project'', ''node_modules/@quasar/app''],
      Spawn ''npm'' [''uninstall'', ''--save--dev'', ''@quasar/app''] ''/project'',
      RemoveSync [''/project'', ''node_modules'', ''quasar''],
      Spawn ''npm'' [''install'', ''--save'', ''quasar@^2.0.1''] ''/project'',
      RemoveSync [''/project'', ''node_modules'', ''@quasar/app-webpack''],
      RemoveSync [''/project'', ''node_modules'', ''@quasar/extras''],
      Spawn ''npm'' [''install'', ''--save--dev'', ''@quasar/app-webpack@^3.1.0'',
                     ''@quasar/extras@1.1.0''] ''/project'']"
proof -
  have g: "getPackageJson sample_env ''@quasar/app'' = Some ''3.0.0''" by code_simp
  have s: "semver ''3.0.0'' ''3'' ''0'' ''0'' []" by code_simp
  have k: "''@quasar/app'' \<in> set (group_keys (pkg sample_env) Dependencies @
                                   group_keys (pkg sample_env) DevDependencies)"
    by code_simp
  have "\<not> isl (scan sample_env)" by code_simp
  then have r: "scan sample_env = Inr (final_state (scan sample_env))"
    by (rule Inr_final_state)
  from deprecated_app_rename[THEN conjunct2, THEN conjunct1, rule_format,
      OF conjI[OF g conjI[OF s conjI[OF k r]]]]
  have f: "removeDeprecatedAppPkg (final_state (scan sample_env))" .
  have d: "deps (final_state (scan sample_env)) DevDependencies =
     [\<lparr>packageName = ''@quasar/app-webpack'', latestVersion = JSString ''3.1.0''\<rparr>,
      \<lparr>packageName = ''@quasar/extras'', latestVersion = JSString ''1.1.0''\<rparr>]"
    by code_simp
  have ev: "filter is_effect (events (final_state (upgradeQuasar sample_env))) =
     [RemoveSync [''/project'', ''node_modules/@quasar/app''],
      Spawn ''npm'' [''uninstall'', ''--save--dev'', ''@quasar/app''] ''/project'',
      RemoveSync [''/project'', ''node_modules'', ''quasar''],
      Spawn ''npm'' [''install'', ''--save'', ''quasar@^2.0.1''] ''/project'',
      RemoveSync [''/project'', ''node_modules'', ''@quasar/app-webpack''],
      RemoveSync [''/project'', ''node_modules'', ''@quasar/extras''],
      Spawn ''npm'' [''install'', ''--save--dev'', ''@quasar/app-webpack@^3.1.0'',
                     ''@quasar/extras@1.1.0''] ''/project'']"
    by code_simp
  show ?thesis using g s r f d ev by blast
qed

text \<open>
  C8.  The install argument of a plan entry is to keep the pinning style of the entry
  the caller wrote in the manifest.  Line 218 looks the entry up under the name in the
  plan, under \<^verbatim>\<open>dependencies\<close> first whatever group is being installed, and falls back
  to a caret.  So the style is lost in two cases.  The plan entry of the renamed
  \<^verbatim>\<open>@quasar/app-webpack\<close> has no manifest entry of that name: the caller's exact
  \<^verbatim>\<open>3.0.0\<close> for \<^verbatim>\<open>@quasar/app\<close> becomes \<^verbatim>\<open>@quasar/app-webpack@^3.1.0\<close>.  A package
  listed in both groups is installed in \<^verbatim>\<open>devDependencies\<close> by the style of its
  \<^verbatim>\<open>dependencies\<close> entry: the caller's exact \<^verbatim>\<open>2.0.0\<close> there becomes
  \<^verbatim>\<open>quasar@^2.0.1\<close>.
\<close>

theorem install_argument_loses_pin:
  "devDependencies (pkg sample_env) =
     Some [(''@quasar/app'', ''3.0.0''), (''@quasar/extras'', ''1.0.0'')] \<and>
   deps (final_state (scan sample_env)) DevDependencies =
     [\<lparr>packageName = ''@quasar/app-webpack'', latestVersion = JSString ''3.1.0''\<rparr>,
      \<lparr>packageName = ''@quasar/extras'', latestVersion = JSString ''1.1.0''\<rparr>] \<and>
   filter is_effect (events (final_state (upgradeQuasar sample_env))) =
     [RemoveSync [''/project'', ''node_modules/@quasar/app''],
      Spawn ''npm'' [''uninstall'', ''--save--dev'', ''@quasar/app''] ''/project'',
      RemoveSync [''/project'', ''node_modules'', ''quasar''],
      Spawn ''npm'' [''install'', ''--save'', ''quasar@^2.0.1''] ''/project'',
      RemoveSync [''/project'', ''node_modules'', ''@quasar/app-webpack''],
      RemoveSync [''/project'', ''node_modules'', ''@quasar/extras''],
      Spawn ''npm'' [''install'', ''--save--dev'', ''@quasar/app-webpack@^3.1.0'',
                     ''@quasar/extras@1.1.0''] ''/project''] \<and>
   dependencies (pkg twice_env) = Some [(''quasar'', ''^2.0.0'')] \<and>
   devDependencies (pkg twice_env) = Some [(''quasar'', ''2.0.0'')] \<and>
   deps (final_state (scan twice_env)) DevDependencies =
     [\<lparr>packageName = ''quasar'', latestVersion = JSString ''2.0.1''\<rparr>] \<and>
   filter is_effect (events (final_state (upgradeQuasar twice_env))) =
     [RemoveSync [''/project'', ''node_modules'', ''quasar''],
      Spawn ''npm'' [''install'', ''--save'', ''quasar@^2.0.1''] ''/project'',
      RemoveSync [''/project'', ''node_modules'', ''quasar''],
      Spawn ''npm'' [''install'', ''--save--dev'', ''quasar@^2.0.1''] ''/project'']"
proof (intro conjI)
  show "devDependencies (pkg sample_env) =
     Some [(''@quasar/app'', ''3.0.0''), (''@quasar/extras'', ''1.0.0'')]"
    by code_simp
  show "deps (final_state (scan sample_env)) DevDependencies =
     [\<lparr>packageName = ''@quasar/app-webpack'', latestVersion = JSString ''3.1.0''\<rparr>,
      \<lparr>packageName = ''@quasar/extras'', latestVersion = JSString ''1.1.0''\<rparr>]"
    by code_simp
  show "filter is_effect (events (final_state (upgradeQuasar sample_env))) =
     [RemoveSync [''/project'', ''node_modules/@quasar/app''],
      Spawn ''npm'' [''uninstall'', ''--save--dev'', ''@quasar/app''] ''/project'',
      RemoveSync [''/project'', ''node_modules'', ''quasar''],
      Spawn ''npm'' [''install'', ''--save'', ''quasar@^2.0.1''] ''/project'',
      RemoveSync [''/project'', ''node_modules'', ''@quasar/app-webpack''],
      RemoveSync [''/project'', ''node_modules'', ''@quasar/extras''],
      Spawn ''npm'' [''install'', ''--save--dev'', ''@quasar/app-webpack@^3.1.0'',
                     ''@quasar/extras@1.1.0''] ''/project'']"
    by code_simp
  show "dependencies (pkg twice_env) = Some [(''quasar'', ''^2.0.0'')]"
    by code_simp
  show "devDependencies (pkg twice_env) = Some [(''quasar'', ''2.0.0'')]"
    by code_simp
  show "deps (final_state (scan twice_env)) DevDependencies =
     [\<lparr>packageName = ''quasar'', latestVersion = JSString ''2.0.1''\<rparr>]"
    by code_simp
  show "filter is_effect (events (final_state (upgradeQuasar twice_env))) =
     [RemoveSync [''/project'', ''node_modules'', ''quasar''],
      Spawn ''npm'' [''install'', ''--save'', ''quasar@^2.0.1''] ''/project'',
      RemoveSync [''/project'', ''node_modules'', ''quasar''],
      Spawn ''npm'' [''install'', ''--save--dev'', ''quasar@^2.0.1''] ''/project'']"
    by code_simp
qed

section \<open>The extension resolver: claims\<close>

text \<open>
  C9.  \<open>resolveExtension\<close> tries the path itself and then the path with \<^verbatim>\<open>.js\<close>,
  \<^verbatim>\<open>.ts\<close>, \<^verbatim>\<open>.jsx\<close> and \<^verbatim>\<open>.tsx\<close> appended, in this order, and returns the first
  that exists; when none exists it returns \<^verbatim>\<open>undefined\<close> and does not fail.  So a path
  that exists is returned unchanged, whether or not the path with \<^verbatim>\<open>.js\<close> exists.
\<close>

theorem resolveExtension_first_existing:
  "resolveExtension existsSync p =
     (if existsSync p then Some p
      else if existsSync (p @ ''.js'') then Some (p @ ''.js'')
      else if existsSync (p @ ''.ts'') then Some (p @ ''.ts'')
      else if existsSync (p @ ''.jsx'') then Some (p @ ''.jsx'')
      else if existsSync (p @ ''.tsx'') then Some (p @ ''.tsx'')
      else None)"
  by (simp add: resolveExtension_def extensions_def)

theorem resolveExtension_first_existing_witness:
  "resolveExtension (sample_exists) ''src/boot/axios'' = Some ''src/boot/axios'' \<and>
   resolveExtension (sample_exists) ''src/router/index'' = Some ''src/router/index.ts'' \<and>
   resolveExtension (sample_exists) ''src/missing'' = None"
  using resolveExtension_first_existing[of sample_exists "''src/boot/axios''"]
    resolveExtension_first_existing[of sample_exists "''src/router/index''"]
    resolveExtension_first_existing[of sample_exists "''src/missing''"]
  by (simp add: sample_exists_def)

end
